theory Spec2Isabelle
  imports Main "HOL-Library.Sublist"
begin

section \<open>JavaScript values\<close>

text \<open>
  The three views (\<^verbatim>\<open>Group.js\<close>, \<^verbatim>\<open>Bookmark.js\<close>, \<^verbatim>\<open>SubscriptionDetails.js\<close>) test
  values for truthiness, concatenate them into URLs and compare them with \<^verbatim>\<open>==\<close>, so the
  values keep their JavaScript shape. Numbers are integers (ids, counters); an object is its
  list of properties in insertion order.
\<close>

datatype jsval =
    JUndefined
  | JNull
  | JBool bool
  | JNum int
  | JStr string
  | JArr "jsval list"
  | JObj "(string \<times> jsval) list"

type_synonym obj = "(string \<times> jsval) list"

text \<open>\<^verbatim>\<open>if (v)\<close> and \<^verbatim>\<open>!v\<close>: only undefined, null, false, 0 and the empty string are falsy.\<close>

fun truthy :: "jsval \<Rightarrow> bool" where
  "truthy JUndefined = False"
| "truthy JNull = False"
| "truthy (JBool b) = b"
| "truthy (JNum n) = (n \<noteq> 0)"
| "truthy (JStr s) = (s \<noteq> [])"
| "truthy (JArr xs) = True"
| "truthy (JObj kvs) = True"

text \<open>\<^verbatim>\<open>o[k] = v\<close>: an existing property keeps its place, a new one goes last.\<close>

fun aset :: "'k \<Rightarrow> 'v \<Rightarrow> ('k \<times> 'v) list \<Rightarrow> ('k \<times> 'v) list" where
  "aset k v [] = [(k, v)]"
| "aset k v (p # ps) = (if fst p = k then (k, v) # ps else p # aset k v ps)"

text \<open>\<^verbatim>\<open>o[k]\<close> on an object: a missing property reads as undefined.\<close>

definition obj_get :: "string \<Rightarrow> obj \<Rightarrow> jsval" where
  "obj_get k ob = (case map_of ob k of None \<Rightarrow> JUndefined | Some v \<Rightarrow> v)"

datatype js_error = TypeError | URIError

text \<open>
  \<^verbatim>\<open>v.k\<close> on any value, for the data properties the views read (\<^verbatim>\<open>id\<close>, \<^verbatim>\<open>value\<close>,
  \<^verbatim>\<open>name\<close>, \<^verbatim>\<open>article\<close>): undefined and null throw a TypeError, a primitive or an array
  has no such property.
\<close>

fun get_prop :: "string \<Rightarrow> jsval \<Rightarrow> jsval option" where
  "get_prop k JUndefined = None"
| "get_prop k JNull = None"
| "get_prop k (JObj kvs) = Some (obj_get k kvs)"
| "get_prop k v = Some JUndefined"

text \<open>\<^verbatim>\<open>a || b\<close>\<close>

definition js_or :: "jsval \<Rightarrow> jsval \<Rightarrow> jsval" where
  "js_or a b = (if truthy a then a else b)"

text \<open>String conversion, as string concatenation and property keys apply it.\<close>

definition digit_char :: "nat \<Rightarrow> char" where
  "digit_char d = ''0123456789'' ! d"

fun digits :: "nat \<Rightarrow> string" where
  "digits n = (if n < 10 then [digit_char n] else digits (n div 10) @ [digit_char (n mod 10)])"

declare digits.simps [simp del]

definition int_str :: "int \<Rightarrow> string" where
  "int_str i = (if i < 0 then CHR ''-'' # digits (nat (- i)) else digits (nat i))"

fun join_comma :: "string list \<Rightarrow> string" where
  "join_comma [] = []"
| "join_comma [s] = s"
| "join_comma (s # t # ss) = s @ '','' @ join_comma (t # ss)"

fun to_str :: "jsval \<Rightarrow> string" where
  "to_str JUndefined = ''undefined''"
| "to_str JNull = ''null''"
| "to_str (JBool b) = (if b then ''true'' else ''false'')"
| "to_str (JNum n) = int_str n"
| "to_str (JStr s) = s"
| "to_str (JArr xs) =
     join_comma (map (\<lambda>x. case x of JUndefined \<Rightarrow> [] | JNull \<Rightarrow> [] | _ \<Rightarrow> to_str x) xs)"
| "to_str (JObj kvs) = ''[object Object]''"

text \<open>A handler either returns or throws; the state reached at the throw stays.\<close>

datatype 'w outcome = Returned 'w | Threw js_error 'w

fun world_of :: "'w outcome \<Rightarrow> 'w" where
  "world_of (Returned w) = w"
| "world_of (Threw e w) = w"

fun returned :: "'w outcome \<Rightarrow> bool" where
  "returned (Returned w) = True"
| "returned (Threw e w) = False"

section \<open>Collaborators: transport, notifier, timers, cookies, document\<close>

text \<open>
  \<^verbatim>\<open>utils/Constants\<close> and the page globals are not part of the sources: the URL constants,
  \<^verbatim>\<open>USERNAME\<close>, \<^verbatim>\<open>DOMAIN\<close> and \<^verbatim>\<open>ID\<close> are parameters, and so are the two library
  functions \<^verbatim>\<open>moment(d).format('D MMMM YYYY')\<close> and \<^verbatim>\<open>decodeURIComponent\<close> (which throws
  a URIError on a malformed escape: \<open>None\<close>).
\<close>

record config =
  GROUP_URL :: string
  CATEGORIES_CAMPAIGN_URL :: string
  SUBSCRIPTION_URL :: string
  MENUS :: string
  ARTICLE_BOOKMARK :: string
  ALL_ARTICLE_BOOKMARK :: string
  ARTICLE_LOGOUT :: string
  USERNAME :: jsval
  DOMAIN :: jsval
  ID :: jsval
  moment_format :: "jsval \<Rightarrow> string"
  decodeURIComponent :: "string \<Rightarrow> string option"

datatype callback =
    CbGetGroupsData
  | CbGetCampaignCategories
  | CbGroupSubmitResponse
  | CbGroupUpdateResponse
  | CbDeleteGroupResponse
  | CbGetMenu
  | CbGetBookmarksArticles
  | CbArticleBookmarkResponse
  | CbAuthLogoutResponse
  | CbGetSubscriptionData
  | CbRenderResponse

text \<open>
  \<^verbatim>\<open>authHeaders\<close> and \<^verbatim>\<open>fileUploadHeaders\<close> come from \<^verbatim>\<open>utils/Utils\<close>; the Bookmark view
  builds \<^verbatim>\<open>{"Authorization": "Token " + token, "Content-Type": "application/json"}\<close> itself.
\<close>

datatype headers = NoHeaders | AuthHeaders | FileUploadHeaders | TokenHeaders string

datatype payload = NoBody | JsonStringify jsval | FormData "(string \<times> string) list"

text \<open>The last argument of a mutation: an object, or the table row found in the document.\<close>

datatype extra = NoExtra | ExtraObj obj | ExtraElem "nat option"

text \<open>
  A transport call as the views make it. \<open>origin\<close> is the name of the function that made
  the call; it is bookkeeping of the model, nothing reads it.
\<close>

record request =
  meth :: string
  url :: string
  body :: payload
  callback :: callback
  hdrs :: headers
  extra_data :: extra
  origin :: string

text \<open>
  Modelled from the spec: the Transport contract
  \<^verbatim>\<open>GET(url, onSuccess, headers?)\<close>, \<^verbatim>\<open>POST/PUT(url, body, onSuccess, method, headers, extra?)\<close>,
  \<^verbatim>\<open>DELETE(url, onSuccess, headers, extra?)\<close> of \<^verbatim>\<open>utils/Utils\<close>, which is not part of the sources.
  Each call starts one request; the callback runs when its response arrives.
\<close>

definition getRequest :: "string \<Rightarrow> callback \<Rightarrow> headers \<Rightarrow> string \<Rightarrow> request" where
  "getRequest u cb h fn =
     \<lparr>meth = ''GET'', url = u, body = NoBody, callback = cb, hdrs = h,
      extra_data = NoExtra, origin = fn\<rparr>"

definition postRequest ::
  "string \<Rightarrow> payload \<Rightarrow> callback \<Rightarrow> string \<Rightarrow> headers \<Rightarrow> extra \<Rightarrow> string \<Rightarrow> request" where
  "postRequest u b cb m h x fn =
     \<lparr>meth = m, url = u, body = b, callback = cb, hdrs = h, extra_data = x, origin = fn\<rparr>"

definition putRequest ::
  "string \<Rightarrow> payload \<Rightarrow> callback \<Rightarrow> string \<Rightarrow> headers \<Rightarrow> extra \<Rightarrow> string \<Rightarrow> request" where
  "putRequest u b cb m h x fn =
     \<lparr>meth = m, url = u, body = b, callback = cb, hdrs = h, extra_data = x, origin = fn\<rparr>"

definition deleteRequest :: "string \<Rightarrow> callback \<Rightarrow> headers \<Rightarrow> extra \<Rightarrow> string \<Rightarrow> request" where
  "deleteRequest u cb h x fn =
     \<lparr>meth = ''DELETE'', url = u, body = NoBody, callback = cb, hdrs = h,
      extra_data = x, origin = fn\<rparr>"

text \<open>The one-shot callbacks the views hand to \<^verbatim>\<open>setTimeout\<close>.\<close>

datatype timer =
    TmCloseModalClean
  | TmCloseModal
  | TmFadeRow "nat option"
  | TmStopLoading

text \<open>
  What a view shares with the browser: the requests in flight, the notifications shown,
  the timers set, the cookie jar, the \<^verbatim>\<open>dark_style\<close> link of the document head
  (\<open>None\<close>: no such element; \<open>Some d\<close>: present, with \<^verbatim>\<open>disabled = d\<close>), the address assigned to
  \<^verbatim>\<open>window.location.href\<close>, and the number of \<^verbatim>\<open>window.location.reload()\<close> calls.
\<close>

record browser =
  pending :: "request list"
  toasts :: "(jsval \<times> string option) list"
  timers :: "(nat \<times> timer) list"
  cookies :: "(string \<times> jsval) list"
  dark_style :: "bool option"
  href :: "string option"
  reloads :: nat

definition send :: "request \<Rightarrow> 'a browser_scheme \<Rightarrow> 'a browser_scheme" where
  "send r w = w\<lparr>pending := pending w @ [r]\<rparr>"

text \<open>
  Modelled from the spec: the Notifier contract \<^verbatim>\<open>notify(message, level = "success"|"error")\<close>
  of \<^verbatim>\<open>utils/Utils\<close>, which is not part of the sources. The call is recorded with the level
  it was given; a call without one shows at the default level, success.
\<close>

definition notify :: "jsval \<Rightarrow> string option \<Rightarrow> 'a browser_scheme \<Rightarrow> 'a browser_scheme" where
  "notify msg lvl w = w\<lparr>toasts := toasts w @ [(msg, lvl)]\<rparr>"

definition level_of :: "string option \<Rightarrow> string" where
  "level_of lvl = (case lvl of None \<Rightarrow> ''success'' | Some l \<Rightarrow> l)"

definition setTimeout :: "timer \<Rightarrow> nat \<Rightarrow> 'a browser_scheme \<Rightarrow> 'a browser_scheme" where
  "setTimeout t ms w = w\<lparr>timers := timers w @ [(ms, t)]\<rparr>"

text \<open>\<^verbatim>\<open>cookies.get(k)\<close>, \<^verbatim>\<open>cookies.set(k, v)\<close>, \<^verbatim>\<open>cookies.remove(k)\<close>\<close>

definition cookies_get :: "string \<Rightarrow> 'a browser_scheme \<Rightarrow> jsval" where
  "cookies_get k w = obj_get k (cookies w)"

definition cookies_set :: "string \<Rightarrow> jsval \<Rightarrow> 'a browser_scheme \<Rightarrow> 'a browser_scheme" where
  "cookies_set k v w = w\<lparr>cookies := aset k v (cookies w)\<rparr>"

definition cookies_remove :: "string \<Rightarrow> 'a browser_scheme \<Rightarrow> 'a browser_scheme" where
  "cookies_remove k w = w\<lparr>cookies := filter (\<lambda>p. fst p \<noteq> k) (cookies w)\<rparr>"

text \<open>The dark style sheet: enabled (created when missing), or disabled when present.\<close>

definition dark_style_on :: "'a browser_scheme \<Rightarrow> 'a browser_scheme" where
  "dark_style_on w = w\<lparr>dark_style := Some False\<rparr>"

definition dark_style_off :: "'a browser_scheme \<Rightarrow> 'a browser_scheme" where
  "dark_style_off w =
     (case dark_style w of None \<Rightarrow> w | Some d \<Rightarrow> w\<lparr>dark_style := Some True\<rparr>)"

text \<open>\<^verbatim>\<open>getTheme\<close> is the same function in the three views.\<close>

definition getTheme :: "'a browser_scheme \<Rightarrow> 'a browser_scheme" where
  "getTheme w = (if truthy (cookies_get ''isChecked'' w) then dark_style_on w else dark_style_off w)"

text \<open>The part of the component state the three views have in common.\<close>

record ui_state =
  isSideOpen :: bool
  username :: jsval
  isChecked :: bool

section \<open>The Groups view (\<^verbatim>\<open>DashboardApp/Group.js\<close>)\<close>

text \<open>
  The component state of the constructor. \<^verbatim>\<open>fields\<close> and the elements of \<^verbatim>\<open>results\<close> are
  references: \<^verbatim>\<open>editRow\<close> makes \<^verbatim>\<open>state.fields\<close> the row object itself and writes into it,
  so objects live in a store and the state holds their addresses. \<^verbatim>\<open>rows\<close> maps the string
  form of an entity id to the in-edit flag.
\<close>

record group_state = ui_state +
  modal :: bool
  fields_st :: nat
  errors :: "(string \<times> string) list"
  rows :: "(string \<times> bool) list"
  formSuccess :: bool
  categories :: "jsval list"
  campaigns :: "jsval list"
  results :: "nat list"
  "next" :: jsval
  previous :: jsval
  loading :: bool
  q :: string
  page :: int

text \<open>
  The view with its surroundings: the object store, and the rows of the table
  \<^verbatim>\<open>#group-table\<close> in the document, each an element handle with its \<^verbatim>\<open>data-row\<close>
  attribute (the header row has none).
\<close>

record group_world = browser +
  st :: group_state
  heap :: "obj list"
  table :: "(nat \<times> string option) list"

text \<open>Reading an object through its address; every address the state holds is allocated.\<close>

definition deref :: "obj list \<Rightarrow> nat \<Rightarrow> obj" where
  "deref h a = (if a < length h then h ! a else [])"

text \<open>The constructor: the empty \<^verbatim>\<open>fields\<close> object is the first object of the store.\<close>

definition Group_constructor :: "config \<Rightarrow> group_world" where
  "Group_constructor c =
     \<lparr>pending = [], toasts = [], timers = [], cookies = [], dark_style = None, href = None,
      reloads = 0,
      st = \<lparr>isSideOpen = True, username = USERNAME c, isChecked = False,
            modal = False, fields_st = 0, errors = [], rows = [], formSuccess = False,
            categories = [], campaigns = [], results = [], next = JNull, previous = JNull,
            loading = False, q = [], page = 0\<rparr>,
      heap = [[]], table = []\<rparr>"

definition handleQueryChange :: "string \<Rightarrow> group_world \<Rightarrow> group_world" where
  "handleQueryChange v w = w\<lparr>st := (st w)\<lparr>q := v\<rparr>\<rparr>"

definition getGroups :: "config \<Rightarrow> group_world \<Rightarrow> group_world" where
  "getGroups c w = send (getRequest (GROUP_URL c) CbGetGroupsData AuthHeaders ''getGroups'') w"

definition handleKeyPress :: "config \<Rightarrow> string \<Rightarrow> group_world \<Rightarrow> group_world" where
  "handleKeyPress c key w =
     (if key = ''Enter'' then
        send (getRequest (GROUP_URL c @ ''?q='' @ q (st w)) CbGetGroupsData AuthHeaders
                ''handleKeyPress'')
          (w\<lparr>st := (st w)\<lparr>results := []\<rparr>\<rparr>)
      else w)"

text \<open>\<^verbatim>\<open>handleValidation\<close> stores the error object in the state and returns \<^verbatim>\<open>formIsValid\<close>.\<close>

definition handleValidation :: "group_world \<Rightarrow> group_world \<times> bool" where
  "handleValidation w =
     (let fs = deref (heap w) (fields_st (st w));
          required_msg = ''This fields is required'';
          (formIsValid, errs) = (True, []);
          (formIsValid, errs) =
            (if \<not> truthy (obj_get ''category'' fs)
             then (False, aset ''category'' required_msg errs) else (formIsValid, errs));
          (formIsValid, errs) =
            (if \<not> truthy (obj_get ''campaign'' fs)
             then (False, aset ''campaign'' required_msg errs) else (formIsValid, errs))
      in (w\<lparr>st := (st w)\<lparr>errors := errs\<rparr>\<rparr>, formIsValid))"

text \<open>
  The argument react-select or the checkbox hands to \<^verbatim>\<open>handleChange\<close>: null, a list of
  options, one option, or a change event with \<^verbatim>\<open>target.checked\<close>.
\<close>

datatype change_arg = CNull | COptions "obj list" | COption obj | CChecked bool

definition option_dict :: "jsval \<Rightarrow> jsval \<Rightarrow> jsval" where
  "option_dict v n = JObj [(''value'', v), (''label'', n), (''name'', n)]"

fun arg_prop :: "string \<Rightarrow> change_arg \<Rightarrow> jsval" where
  "arg_prop k (COption ob) = obj_get k ob"
| "arg_prop k e = JUndefined"

definition set_field :: "string \<Rightarrow> jsval \<Rightarrow> group_world \<Rightarrow> group_world" where
  "set_field k v w =
     w\<lparr>heap := (heap w)[fields_st (st w) := aset k v (deref (heap w) (fields_st (st w)))]\<rparr>"

text \<open>
  The three branches of \<^verbatim>\<open>handleChange\<close> write into the \<^verbatim>\<open>fields\<close> object in place; an
  argument without \<^verbatim>\<open>map\<close> or without \<^verbatim>\<open>target\<close> throws before anything is written.
\<close>

fun change_fields :: "string \<Rightarrow> change_arg \<Rightarrow> bool \<Rightarrow> group_world \<Rightarrow> group_world outcome" where
  "change_fields field e is_editable w =
     (if field = ''category'' then
        (case e of
           CNull \<Rightarrow> Returned w
         | COptions items \<Rightarrow>
             (if items = [] then Returned w
              else if is_editable then
                Returned (set_field field
                  (JArr (map (\<lambda>item. option_dict (obj_get ''value'' item) (obj_get ''name'' item))
                     items)) w)
              else Returned (set_field field (JArr (map (obj_get ''value'') items)) w))
         | _ \<Rightarrow> Threw TypeError w)
      else if field = ''is_active'' then
        (case e of
           CChecked b \<Rightarrow> Returned (set_field field (JBool b) w)
         | _ \<Rightarrow> Threw TypeError w)
      else
        (case e of
           CNull \<Rightarrow> Returned w
         | _ \<Rightarrow>
             (if is_editable then
                Returned (set_field field
                  (option_dict (arg_prop ''value'' e) (arg_prop ''name'' e)) w)
              else Returned (set_field field (arg_prop ''value'' e) w))))"

definition handleChange ::
  "string \<Rightarrow> change_arg \<Rightarrow> bool \<Rightarrow> group_world \<Rightarrow> group_world outcome" where
  "handleChange field e is_editable w =
     (case change_fields field e is_editable w of
        Threw err w1 \<Rightarrow> Threw err w1
      | Returned w1 \<Rightarrow> Returned (fst (handleValidation w1)))"

text \<open>The success callback of the create request sets a 3000 ms timer in either branch.\<close>

definition groupSubmitResponse :: "obj \<Rightarrow> obj \<Rightarrow> group_world \<Rightarrow> group_world" where
  "groupSubmitResponse data_body extra w =
     (let w1 = w\<lparr>st := (st w)\<lparr>formSuccess := True\<rparr>\<rparr>
      in if truthy (obj_get ''clean_results'' extra)
         then setTimeout TmCloseModalClean 3000 w1
         else setTimeout TmCloseModal 3000 w1)"

definition groupSubmit :: "config \<Rightarrow> group_world \<Rightarrow> group_world" where
  "groupSubmit c w =
     (let (w1, ok) = handleValidation w
      in if ok then
           send (postRequest (GROUP_URL c)
                   (JsonStringify (JObj (deref (heap w1) (fields_st (st w1)))))
                   CbGroupSubmitResponse ''POST'' AuthHeaders
                   (ExtraObj [(''clean_results'', JBool True)]) ''groupSubmit'') w1
         else w1\<lparr>st := (st w1)\<lparr>formSuccess := False\<rparr>\<rparr>)"

definition toggle :: "group_world \<Rightarrow> group_world" where
  "toggle w = w\<lparr>st := (st w)\<lparr>modal := \<not> modal (st w)\<rparr>\<rparr>"

text \<open>
  \<^verbatim>\<open>submitRow\<close>: after the validation, \<^verbatim>\<open>fields['category'].map\<close> needs an array and
  \<^verbatim>\<open>i.value\<close> an item that is neither null nor undefined.
\<close>

definition submitRow :: "config \<Rightarrow> group_world \<Rightarrow> group_world outcome" where
  "submitRow c w =
     (let (w1, ok) = handleValidation w
      in if ok then
           (let fs = deref (heap w1) (fields_st (st w1))
            in case obj_get ''category'' fs of
                 JArr items \<Rightarrow>
                   (case those (map (get_prop ''value'') items) of
                      None \<Rightarrow> Threw TypeError w1
                    | Some final_category \<Rightarrow>
                        (case get_prop ''value'' (obj_get ''campaign'' fs) of
                           None \<Rightarrow> Threw TypeError w1
                         | Some campaign_value \<Rightarrow>
                             Returned
                               (send (putRequest
                                        (GROUP_URL c @ to_str (obj_get ''id'' fs) @ ''/'')
                                        (JsonStringify (JObj
                                           [(''campaign'', campaign_value),
                                            (''category'', JArr final_category),
                                            (''id'', obj_get ''id'' fs),
                                            (''is_active'', obj_get ''is_active'' fs)]))
                                        CbGroupUpdateResponse ''PUT'' AuthHeaders
                                        (ExtraObj [(''clean_results'', JBool True)])
                                        ''submitRow'') w1)))
               | _ \<Rightarrow> Threw TypeError w1)
         else Returned w1)"

definition groupUpdateResponse :: "config \<Rightarrow> obj \<Rightarrow> obj \<Rightarrow> group_world \<Rightarrow> group_world" where
  "groupUpdateResponse c data_body extra w =
     (let w1 = notify (JStr ''Group Updated successfully'') None w;
          dataindex = obj_get ''id'' data_body;
          rows1 = aset (to_str dataindex) False (rows (st w1));
          w2 = getGroups c w1
      in if truthy (obj_get ''clean_results'' extra)
         then w2\<lparr>st := (st w2)\<lparr>rows := rows1, results := [], loading := True\<rparr>\<rparr>
         else w2\<lparr>st := (st w2)\<lparr>rows := rows1\<rparr>\<rparr>)"

text \<open>
  \<^verbatim>\<open>editRow\<close>: \<^verbatim>\<open>fields\<close> is the row object \<^verbatim>\<open>results[index]\<close> itself, so the two
  assignments to \<^verbatim>\<open>fields['category']\<close> and \<^verbatim>\<open>fields['campaign']\<close> rewrite the row of the
  collection. Every throw happens before the first write.
\<close>

definition edit_category_item :: "jsval \<Rightarrow> jsval option" where
  "edit_category_item item =
     (case (get_prop ''id'' item, get_prop ''value'' item, get_prop ''name'' item) of
        (Some i, Some v, Some n) \<Rightarrow> Some (option_dict (js_or i v) n)
      | _ \<Rightarrow> None)"

definition edit_categories :: "jsval \<Rightarrow> jsval list option" where
  "edit_categories cat =
     (case cat of
        JNull \<Rightarrow> Some []
      | JArr items \<Rightarrow> those (map edit_category_item items)
      | _ \<Rightarrow> None)"

definition edit_campaign :: "jsval \<Rightarrow> jsval" where
  "edit_campaign camp =
     (case camp of
        JNull \<Rightarrow> JUndefined
      | JUndefined \<Rightarrow> JUndefined
      | JObj kvs \<Rightarrow> option_dict (obj_get ''id'' kvs) (obj_get ''name'' kvs)
      | _ \<Rightarrow> option_dict JUndefined JUndefined)"

definition editRow :: "nat \<Rightarrow> string \<Rightarrow> group_world \<Rightarrow> group_world outcome" where
  "editRow index dataindex w =
     (if index < length (results (st w)) then
        (let a = results (st w) ! index;
             fs = deref (heap w) a
         in case edit_categories (obj_get ''category'' fs) of
              None \<Rightarrow> Threw TypeError w
            | Some selected_category_array \<Rightarrow>
                Returned
                  (w\<lparr>heap := (heap w)[a :=
                        aset ''campaign'' (edit_campaign (obj_get ''campaign'' fs))
                          (aset ''category'' (JArr selected_category_array) fs)],
                     st := (st w)\<lparr>rows := aset dataindex True (rows (st w)),
                                   fields_st := a\<rparr>\<rparr>))
      else Threw TypeError w)"

definition cancelRow :: "nat \<Rightarrow> string \<Rightarrow> group_world \<Rightarrow> group_world" where
  "cancelRow index dataindex w = w\<lparr>st := (st w)\<lparr>rows := aset dataindex False (rows (st w))\<rparr>\<rparr>"

definition deleteGroupResponse :: "obj \<Rightarrow> nat option \<Rightarrow> group_world \<Rightarrow> group_world" where
  "deleteGroupResponse data_body findrow w =
     (let w1 = setTimeout (TmFadeRow findrow) 1000 w;
          w2 = notify (obj_get ''Msg'' data_body) None w1
      in w2\<lparr>reloads := reloads w2 + 1\<rparr>)"

text \<open>\<^verbatim>\<open>document.body.querySelector('[data-row="' + dataindex + '"]')\<close>: the first match or null.\<close>

definition querySelector_data_row :: "string \<Rightarrow> group_world \<Rightarrow> nat option" where
  "querySelector_data_row dataindex w =
     map_option fst (find (\<lambda>r. snd r = Some dataindex) (table w))"

definition deleteRow :: "config \<Rightarrow> string \<Rightarrow> group_world \<Rightarrow> group_world" where
  "deleteRow c dataindex w =
     (let findrow = querySelector_data_row dataindex w
      in send (deleteRequest (GROUP_URL c @ dataindex @ ''/'') CbDeleteGroupResponse AuthHeaders
                 (ExtraElem findrow) ''deleteRow'') w)"

text \<open>
  \<^verbatim>\<open>getCampaignCategories\<close> turns the two lists of the response into select options; a
  truthy value that is no array, or a null item, throws before the state is set.
\<close>

definition option_of_item :: "jsval \<Rightarrow> jsval option" where
  "option_of_item item =
     (case (get_prop ''id'' item, get_prop ''name'' item) of
        (Some i, Some n) \<Rightarrow> Some (option_dict i n)
      | _ \<Rightarrow> None)"

definition options_of :: "jsval \<Rightarrow> jsval list option" where
  "options_of v =
     (if truthy v then
        (case v of JArr items \<Rightarrow> those (map option_of_item items) | _ \<Rightarrow> None)
      else Some [])"

definition getCampaignCategories :: "obj \<Rightarrow> group_world \<Rightarrow> group_world outcome" where
  "getCampaignCategories data_body w =
     (case options_of (obj_get ''categories'' data_body) of
        None \<Rightarrow> Threw TypeError w
      | Some category_array \<Rightarrow>
          (case options_of (obj_get ''campaigns'' data_body) of
             None \<Rightarrow> Threw TypeError w
           | Some campaign_array \<Rightarrow>
               Returned (w\<lparr>st := (st w)\<lparr>categories := category_array,
                                          campaigns := campaign_array\<rparr>\<rparr>)))"

text \<open>
  The body of a collection response under the Transport contract: a page
  \<^verbatim>\<open>{results: Entity[], next, previous}\<close>, or a bare array, the case
  \<^verbatim>\<open>Array.isArray(data.body)\<close> of \<^verbatim>\<open>getGroupsData\<close>.
\<close>

datatype page_body = ArrayBody "jsval list" | PageBody "obj list" jsval jsval

text \<open>
  \<^verbatim>\<open>getGroupsData\<close>: the rows of a page are new objects, stored behind the ones already
  there. An array has no \<^verbatim>\<open>next\<close> and no \<^verbatim>\<open>previous\<close>.
\<close>

fun getGroupsData :: "page_body \<Rightarrow> group_world \<Rightarrow> group_world" where
  "getGroupsData (PageBody rs nx pv) w =
     w\<lparr>heap := heap w @ rs,
       st := (st w)\<lparr>results := results (st w) @ [length (heap w) ..< length (heap w) + length rs],
                     next := nx, previous := pv, loading := False\<rparr>\<rparr>"
| "getGroupsData (ArrayBody xs) w =
     w\<lparr>st := (st w)\<lparr>results := results (st w), next := JUndefined, previous := JUndefined,
                     loading := False\<rparr>\<rparr>"

definition getNext :: "group_world \<Rightarrow> group_world" where
  "getNext w =
     send (getRequest (to_str (next (st w))) CbGetGroupsData AuthHeaders ''getNext'')
       (w\<lparr>st := (st w)\<lparr>loading := True, page := page (st w) + 1\<rparr>\<rparr>)"

text \<open>
  \<^verbatim>\<open>handleScroll\<close> reads \<^verbatim>\<open>$(window).scrollTop()\<close>, \<^verbatim>\<open>$(document).height()\<close> and
  \<^verbatim>\<open>$(window).height()\<close>.
\<close>

definition handleScroll :: "int \<Rightarrow> int \<Rightarrow> int \<Rightarrow> group_world \<Rightarrow> group_world" where
  "handleScroll scrollTop docHeight winHeight w =
     (if scrollTop = docHeight - winHeight then
        (if \<not> loading (st w) \<and> truthy (next (st w)) then getNext w else w)
      else w)"

definition isSideBarToogle :: "jsval \<Rightarrow> group_world \<Rightarrow> group_world" where
  "isSideBarToogle data w =
     (if data = JBool True then
        cookies_set ''isSideOpen'' (JBool True) (w\<lparr>st := (st w)\<lparr>isSideOpen := True\<rparr>\<rparr>)
      else cookies_remove ''isSideOpen'' (w\<lparr>st := (st w)\<lparr>isSideOpen := False\<rparr>\<rparr>))"

definition toggleSwitch :: "jsval \<Rightarrow> group_world \<Rightarrow> group_world" where
  "toggleSwitch data w =
     (if data = JBool True then
        (let w1 = dark_style_on w
         in cookies_set ''isChecked'' (JBool True) (w1\<lparr>st := (st w1)\<lparr>isChecked := True\<rparr>\<rparr>))
      else
        (let w1 = dark_style_off w
         in cookies_remove ''isChecked'' (w1\<lparr>st := (st w1)\<lparr>isChecked := False\<rparr>\<rparr>)))"

definition componentDidMount :: "config \<Rightarrow> group_world \<Rightarrow> group_world" where
  "componentDidMount c w =
     (let w1 = getGroups c w;
          w2 = send (getRequest (CATEGORIES_CAMPAIGN_URL c) CbGetCampaignCategories AuthHeaders
                       ''componentDidMount'') w1;
          w3 = w2\<lparr>st := (st w2)\<lparr>isSideOpen := truthy (cookies_get ''isSideOpen'' w2)\<rparr>\<rparr>;
          w4 = w3\<lparr>st := (st w3)\<lparr>isChecked := truthy (cookies_get ''isChecked'' w3)\<rparr>\<rparr>
      in getTheme w4)"

text \<open>
  \<^verbatim>\<open>a.indexOf\<close> by a test on the elements: the first position, or -1. \<^verbatim>\<open>row.rowIndex\<close> is
  the position of the row in its table, -1 for a row that is in none.
\<close>

fun index_of :: "('a \<Rightarrow> bool) \<Rightarrow> 'a list \<Rightarrow> int" where
  "index_of P [] = - 1"
| "index_of P (x # xs) =
     (if P x then 0 else (let i = index_of P xs in if i < 0 then - 1 else i + 1))"

definition rowIndex :: "nat \<Rightarrow> (nat \<times> 'a) list \<Rightarrow> int" where
  "rowIndex h tb = index_of (\<lambda>r. fst r = h) tb"

text \<open>
  \<^verbatim>\<open>table.deleteRow(i)\<close>: -1 removes the last row, a position removes the row there; the
  other indices, which \<^verbatim>\<open>rowIndex\<close> never gives, are an IndexSizeError and remove nothing.
\<close>

definition table_deleteRow :: "int \<Rightarrow> 'a list \<Rightarrow> 'a list" where
  "table_deleteRow i tb =
     (if i = - 1 then butlast tb
      else if 0 \<le> i \<and> i < int (length tb) then take (nat i) tb @ drop (Suc (nat i)) tb
      else tb)"

text \<open>
  The timers of the view when they fire. The fade of \<^verbatim>\<open>deleteGroupResponse\<close> sets two style
  properties of the row, which the model leaves out, and deletes the row from the table;
  \<^verbatim>\<open>findrow.style\<close> throws when no row was found.
\<close>

fun fire_timer :: "config \<Rightarrow> timer \<Rightarrow> group_world \<Rightarrow> group_world outcome" where
  "fire_timer c TmCloseModalClean w =
     Returned (getGroups c
       (w\<lparr>st := (st w)\<lparr>modal := False, formSuccess := False, results := [],
                       loading := True\<rparr>\<rparr>))"
| "fire_timer c TmCloseModal w =
     Returned (getGroups c (w\<lparr>st := (st w)\<lparr>modal := False, formSuccess := False\<rparr>\<rparr>))"
| "fire_timer c (TmFadeRow None) w = Threw TypeError w"
| "fire_timer c (TmFadeRow (Some h)) w =
     Returned (w\<lparr>table := table_deleteRow (rowIndex h (table w)) (table w)\<rparr>)"
| "fire_timer c TmStopLoading w = Returned w"

subsection \<open>The view as a machine of events\<close>

text \<open>
  One event is one run of a handler: a user action, the arrival of the response to one of
  the requests in flight (in any order), or a timer going off. A response reaches the
  callback its request named, with the \<^verbatim>\<open>extra\<close> argument of the request.
\<close>

datatype response = RPage page_body | RObj obj

datatype group_event =
    EvQueryChange string
  | EvKeyPress string
  | EvChange string change_arg bool
  | EvGroupSubmit
  | EvToggle
  | EvSubmitRow
  | EvEditRow nat string
  | EvCancelRow nat string
  | EvDeleteRow string
  | EvScroll int int int
  | EvSideBar jsval
  | EvToggleSwitch jsval
  | EvMount
  | EvResponse nat response
  | EvTimer nat

definition remove_nth :: "nat \<Rightarrow> 'a list \<Rightarrow> 'a list" where
  "remove_nth i xs = take i xs @ drop (Suc i) xs"

fun deliver ::
  "config \<Rightarrow> callback \<Rightarrow> extra \<Rightarrow> response \<Rightarrow> group_world \<Rightarrow> group_world option" where
  "deliver c CbGetGroupsData x (RPage b) w = Some (getGroupsData b w)"
| "deliver c CbGetCampaignCategories x (RObj b) w = Some (world_of (getCampaignCategories b w))"
| "deliver c CbGroupSubmitResponse (ExtraObj x) (RObj b) w = Some (groupSubmitResponse b x w)"
| "deliver c CbGroupUpdateResponse (ExtraObj x) (RObj b) w = Some (groupUpdateResponse c b x w)"
| "deliver c CbDeleteGroupResponse (ExtraElem f) (RObj b) w = Some (deleteGroupResponse b f w)"
| "deliver c cb x r w = None"

fun step :: "config \<Rightarrow> group_event \<Rightarrow> group_world \<Rightarrow> group_world option" where
  "step c (EvQueryChange v) w = Some (handleQueryChange v w)"
| "step c (EvKeyPress k) w = Some (handleKeyPress c k w)"
| "step c (EvChange field e is_editable) w = Some (world_of (handleChange field e is_editable w))"
| "step c EvGroupSubmit w = Some (groupSubmit c w)"
| "step c EvToggle w = Some (toggle w)"
| "step c EvSubmitRow w = Some (world_of (submitRow c w))"
| "step c (EvEditRow i d) w = Some (world_of (editRow i d w))"
| "step c (EvCancelRow i d) w = Some (cancelRow i d w)"
| "step c (EvDeleteRow d) w = Some (deleteRow c d w)"
| "step c (EvScroll a b h) w = Some (handleScroll a b h w)"
| "step c (EvSideBar d) w = Some (isSideBarToogle d w)"
| "step c (EvToggleSwitch d) w = Some (toggleSwitch d w)"
| "step c EvMount w = Some (componentDidMount c w)"
| "step c (EvResponse i r) w =
     (if i < length (pending w) then
        deliver c (callback (pending w ! i)) (extra_data (pending w ! i)) r
          (w\<lparr>pending := remove_nth i (pending w)\<rparr>)
      else None)"
| "step c (EvTimer i) w =
     (if i < length (timers w) then
        Some (world_of (fire_timer c (snd (timers w ! i)) (w\<lparr>timers := remove_nth i (timers w)\<rparr>)))
      else None)"

text \<open>A run of events; an event that cannot happen in the state it meets is skipped.\<close>

fun run :: "config \<Rightarrow> group_event list \<Rightarrow> group_world \<Rightarrow> group_world" where
  "run c [] w = w"
| "run c (e # es) w = run c es (case step c e w of None \<Rightarrow> w | Some w1 \<Rightarrow> w1)"

section \<open>The Bookmark view (\<^verbatim>\<open>NewsApp/Bookmark.js\<close>)\<close>

text \<open>
  \<^verbatim>\<open>state.bookmark_ids\<close> is an array of its own (the constructor and the logout put a new
  empty array there) or the module-level array \<^verbatim>\<open>article_array\<close> itself, once
  \<^verbatim>\<open>getBookmarksArticles\<close> has stored it.
\<close>

datatype ids_ref = OwnArray "jsval list" | ArticleArray

text \<open>
  The cards of \<^verbatim>\<open>newsPosts\<close> are objects the view creates; \<^verbatim>\<open>indexOf\<close> compares them by
  identity, so each card carries the identity it got at creation.
\<close>

record bookmark_state = ui_state +
  newsPosts :: "(nat \<times> obj) list"
  menus :: "jsval list"
  domain :: string
  isLoading :: bool
  modal_bm :: bool
  is_loggedin :: bool
  is_loggedin_validation :: bool
  bookmark_ids :: ids_ref
  options :: "jsval list"
  is_bookmark_empty :: bool
  is_captcha :: "bool option"

record bookmark_world = browser +
  bst :: bookmark_state
  article_array :: "jsval list"
  next_oid :: nat

definition read_bookmark_ids :: "bookmark_world \<Rightarrow> jsval list" where
  "read_bookmark_ids w =
     (case bookmark_ids (bst w) of OwnArray xs \<Rightarrow> xs | ArticleArray \<Rightarrow> article_array w)"

text \<open>The module and the constructor, in a browser with the cookie jar \<open>jar\<close>.\<close>

definition Bookmark_constructor :: "config \<Rightarrow> (string \<times> jsval) list \<Rightarrow> bookmark_world" where
  "Bookmark_constructor c jar =
     \<lparr>pending = [], toasts = [], timers = [], cookies = jar, dark_style = None, href = None,
      reloads = 0,
      bst = \<lparr>isSideOpen = True, username = obj_get ''full_name'' jar, isChecked = False,
             newsPosts = [], menus = [], domain = ''domain='' @ to_str (DOMAIN c),
             isLoading = True, modal_bm = False, is_loggedin = False,
             is_loggedin_validation = False, bookmark_ids = OwnArray [], options = [],
             is_bookmark_empty = False, is_captcha = None\<rparr>,
      article_array = [], next_oid = 0\<rparr>"

definition loggedInUser :: "jsval \<Rightarrow> bookmark_world \<Rightarrow> bookmark_world" where
  "loggedInUser data w = w\<lparr>bst := (bst w)\<lparr>username := data, is_loggedin := True\<rparr>\<rparr>"

definition toggle_bm :: "jsval \<Rightarrow> bookmark_world \<Rightarrow> bookmark_world" where
  "toggle_bm data w = w\<lparr>bst := (bst w)\<lparr>modal_bm := \<not> truthy data\<rparr>\<rparr>"

definition token_headers :: "bookmark_world \<Rightarrow> headers" where
  "token_headers w = TokenHeaders (''Token '' @ to_str (cookies_get ''token'' w))"

definition fetchArticleBookmark :: "config \<Rightarrow> jsval \<Rightarrow> bookmark_world \<Rightarrow> bookmark_world" where
  "fetchArticleBookmark c articleId w =
     send (postRequest (ARTICLE_BOOKMARK c @ ''?'' @ domain (bst w))
             (JsonStringify (JObj [(''article_id'', articleId)]))
             CbArticleBookmarkResponse ''POST'' (token_headers w) NoExtra
             ''fetchArticleBookmark'') w"

definition getArticleId :: "config \<Rightarrow> jsval \<Rightarrow> bookmark_world \<Rightarrow> bookmark_world" where
  "getArticleId c articleId w =
     (if truthy (cookies_get ''full_name'' w) then fetchArticleBookmark c articleId w
      else toggle_bm JUndefined w)"

text \<open>
  The identity of a value that was just parsed from a response body: a primitive has
  none, an object or an array is a new object. It is compared and then dropped, so the
  counter of identities stays.
\<close>

definition parsed_identity :: "bookmark_world \<Rightarrow> jsval \<Rightarrow> nat option" where
  "parsed_identity w v =
     (case v of JObj kvs \<Rightarrow> Some (next_oid w) | JArr xs \<Rightarrow> Some (next_oid w) | _ \<Rightarrow> None)"

text \<open>\<^verbatim>\<open>a.splice(i, 1)\<close>: a negative start counts from the end.\<close>

definition splice1 :: "int \<Rightarrow> 'a list \<Rightarrow> 'a list" where
  "splice1 i xs =
     (let len = int (length xs);
          start = (if i < 0 then max (len + i) 0 else min i len)
      in take (nat start) xs @ drop (Suc (nat start)) xs)"

definition articleBookmarkResponse ::
  "config \<Rightarrow> obj \<Rightarrow> bookmark_world \<Rightarrow> bookmark_world outcome" where
  "articleBookmarkResponse c data_body w =
     (let bookmark_obj = obj_get ''bookmark_article'' data_body
      in case get_prop ''article'' bookmark_obj of
           None \<Rightarrow> Threw TypeError w
         | Some article \<Rightarrow>
             (let index = index_of (\<lambda>p. Some (fst p) = parsed_identity w article)
                            (newsPosts (bst w));
                  w1 = w\<lparr>bst := (bst w)\<lparr>newsPosts := splice1 index (newsPosts (bst w))\<rparr>\<rparr>
              in if truthy (cookies_get ''full_name'' w1) then
                   Returned (send (getRequest (ALL_ARTICLE_BOOKMARK c @ ''?'' @ domain (bst w1))
                                     CbGetBookmarksArticles (token_headers w1)
                                     ''articleBookmarkResponse'') w1)
                 else Returned w1))"

text \<open>
  The loop of \<^verbatim>\<open>getBookmarksArticles\<close> over \<^verbatim>\<open>data.body.results\<close>, with its two arrays and
  the counter of identities. \<^verbatim>\<open>article_array.push\<close> writes the module-level array at
  once, so what was pushed before a throw stays.
\<close>

definition article_dict :: "config \<Rightarrow> obj \<Rightarrow> string \<Rightarrow> obj" where
  "article_dict c art src =
     [(''id'', obj_get ''id'' art),
      (''header'', obj_get ''title'' art),
      (''altText'', obj_get ''title'' art),
      (''caption'', obj_get ''blurb'' art),
      (''source'', obj_get ''source'' art),
      (''slug'', JStr (''/news/article/'' @ to_str (obj_get ''slug'' art))),
      (''category'', obj_get ''category'' art),
      (''hash_tags'', obj_get ''hash_tags'' art),
      (''published_on'', JStr (moment_format c (obj_get ''published_on'' art))),
      (''src'', JStr (''http://images.newscout.in/unsafe/368x276/left/top/'' @ src))]"

fun collect_articles ::
  "config \<Rightarrow> obj list \<Rightarrow> (nat \<times> obj) list \<times> jsval list \<times> nat
     \<Rightarrow> ((nat \<times> obj) list \<times> jsval list \<times> nat) outcome" where
  "collect_articles c [] acc = Returned acc"
| "collect_articles c (item # items) (news_array, arts, n) =
     (case obj_get ''article'' item of
        JUndefined \<Rightarrow> Threw TypeError (news_array, arts, n)
      | JNull \<Rightarrow> Threw TypeError (news_array, arts, n)
      | JObj art \<Rightarrow>
          (if truthy (obj_get ''cover_image'' art) then
             (case decodeURIComponent c (to_str (obj_get ''cover_image'' art)) of
                None \<Rightarrow> Threw URIError (news_array, arts, n)
              | Some src \<Rightarrow>
                  collect_articles c items
                    (news_array @ [(n, article_dict c art src)], arts @ [JObj art], Suc n))
           else collect_articles c items (news_array, arts, n))
      | _ \<Rightarrow> collect_articles c items (news_array, arts, n))"

definition getBookmarksArticles ::
  "config \<Rightarrow> obj list \<Rightarrow> bookmark_world \<Rightarrow> bookmark_world outcome" where
  "getBookmarksArticles c data_body_results w =
     (case collect_articles c data_body_results ([], article_array w, next_oid w) of
        Threw err (news_array, arts, n) \<Rightarrow>
          Threw err (w\<lparr>article_array := arts, next_oid := n\<rparr>)
      | Returned (news_array, arts, n) \<Rightarrow>
          Returned (setTimeout TmStopLoading 300
            (w\<lparr>article_array := arts, next_oid := n,
               bst := (bst w)\<lparr>newsPosts := news_array, bookmark_ids := ArticleArray,
                               is_bookmark_empty := (if length news_array > 0 then False
                                                     else True)\<rparr>\<rparr>)))"

definition handleLogout :: "config \<Rightarrow> bookmark_world \<Rightarrow> bookmark_world" where
  "handleLogout c w =
     send (getRequest (ARTICLE_LOGOUT c) CbAuthLogoutResponse (token_headers w) ''handleLogout'') w"

definition authLogoutResponse :: "bookmark_world \<Rightarrow> bookmark_world" where
  "authLogoutResponse w =
     (let w1 = cookies_remove ''full_name'' (cookies_remove ''token'' w);
          w2 = w1\<lparr>bst := (bst w1)\<lparr>is_loggedin := False, is_captcha := Some True,
                                   bookmark_ids := OwnArray []\<rparr>\<rparr>
      in w2\<lparr>href := Some ''/''\<rparr>)"

definition componentDidMount_bm :: "config \<Rightarrow> bookmark_world \<Rightarrow> bookmark_world" where
  "componentDidMount_bm c w =
     (let w1 = send (getRequest (MENUS c @ ''?'' @ domain (bst w)) CbGetMenu NoHeaders
                       ''componentDidMount'') w;
          w2 = (if truthy (cookies_get ''full_name'' w1) then
                  send (getRequest (ALL_ARTICLE_BOOKMARK c @ ''?'' @ domain (bst w1))
                          CbGetBookmarksArticles (token_headers w1) ''componentDidMount'')
                    (w1\<lparr>bst := (bst w1)\<lparr>is_loggedin := True\<rparr>\<rparr>)
                else w1\<lparr>href := Some ''/''\<rparr>);
          w3 = w2\<lparr>bst := (bst w2)\<lparr>isChecked := truthy (cookies_get ''isChecked'' w2)\<rparr>\<rparr>;
          w4 = w3\<lparr>bst := (bst w3)\<lparr>isSideOpen := truthy (cookies_get ''isSideOpen'' w3)\<rparr>\<rparr>
      in getTheme w4)"

text \<open>The timer of \<^verbatim>\<open>getBookmarksArticles\<close> when it fires.\<close>

definition stop_loading :: "bookmark_world \<Rightarrow> bookmark_world" where
  "stop_loading w = w\<lparr>bst := (bst w)\<lparr>isLoading := False\<rparr>\<rparr>"

section \<open>The subscription view (\<^verbatim>\<open>DashboardApp/SubscriptionDetails.js\<close>)\<close>

record subs_state = ui_state +
  id_sd :: jsval
  email :: jsval
  subs_type :: jsval
  autoRenew :: jsval
  payement_mode :: jsval
  createdOn :: jsval
  loading_sd :: "bool option"

record subs_world = browser +
  sst :: subs_state

definition Subs_constructor :: "config \<Rightarrow> subs_world" where
  "Subs_constructor c =
     \<lparr>pending = [], toasts = [], timers = [], cookies = [], dark_style = None, href = None,
      reloads = 0,
      sst = \<lparr>isSideOpen = True, username = USERNAME c, isChecked = False,
             id_sd = JStr [], email = JStr [], subs_type = JStr ''Basic'',
             autoRenew = JStr ''Yes'', payement_mode = JStr ''Basic'', createdOn = JStr [],
             loading_sd = None\<rparr>\<rparr>"

definition handleChange_sd :: "obj \<Rightarrow> subs_world \<Rightarrow> subs_world" where
  "handleChange_sd e w = w\<lparr>sst := (sst w)\<lparr>subs_type := obj_get ''value'' e\<rparr>\<rparr>"

definition handleRenewChange :: "obj \<Rightarrow> subs_world \<Rightarrow> subs_world" where
  "handleRenewChange e w = w\<lparr>sst := (sst w)\<lparr>autoRenew := obj_get ''value'' e\<rparr>\<rparr>"

text \<open>\<^verbatim>\<open>FormData.set\<close> stores the string form of each value.\<close>

definition submitForm :: "config \<Rightarrow> subs_world \<Rightarrow> subs_world" where
  "submitForm c w =
     send (postRequest (SUBSCRIPTION_URL c @ to_str (ID c) @ ''/'')
             (FormData [(''subs_type'', to_str (subs_type (sst w))),
                        (''id'', to_str (id_sd (sst w))),
                        (''auto_renew'', to_str (autoRenew (sst w)))])
             CbRenderResponse ''POST'' FileUploadHeaders NoExtra ''submitForm'') w"

text \<open>
  Converting an object to a primitive calls its \<^verbatim>\<open>toString\<close>. An object parsed from a
  response inherits the one of \<^verbatim>\<open>Object.prototype\<close>, unless it has a property of its own
  with this name: that one is data and cannot be called, \<^verbatim>\<open>valueOf\<close> returns the object
  itself, and the conversion throws a TypeError. The string form of an array converts
  its elements, so an array throws when it holds such an object, at any depth.
\<close>

fun own_toString :: "jsval \<Rightarrow> bool" where
  "own_toString (JObj kvs) = (map_of kvs ''toString'' \<noteq> None)"
| "own_toString (JArr xs) = list_ex own_toString xs"
| "own_toString v = False"

text \<open>
  \<^verbatim>\<open>x == "success"\<close>, the abstract equality of JavaScript against this string: a string is
  compared as it is; a number or a boolean is compared with the number the string
  converts to, which is NaN, equal to nothing; null and undefined equal only each other;
  an array or an object is converted to a string first, which may throw (\<open>None\<close>).
\<close>

fun eq_success :: "jsval \<Rightarrow> bool option" where
  "eq_success (JStr s) = Some (s = ''success'')"
| "eq_success (JArr xs) =
     (if own_toString (JArr xs) then None else Some (to_str (JArr xs) = ''success''))"
| "eq_success (JObj kvs) =
     (if own_toString (JObj kvs) then None else Some (to_str (JObj kvs) = ''success''))"
| "eq_success v = Some False"

text \<open>\<^verbatim>\<open>renderResponse\<close> notifies after the comparison; when that throws, nothing is shown.\<close>

definition renderResponse :: "obj \<Rightarrow> subs_world \<Rightarrow> subs_world outcome" where
  "renderResponse data_body w =
     (case eq_success (obj_get ''results'' data_body) of
        None \<Rightarrow> Threw TypeError w
      | Some True \<Rightarrow> Returned (notify (JStr ''Subscription Updated successfully!'') None w)
      | Some False \<Rightarrow> Returned (notify (JStr ''Something went wrong!'') (Some ''error'') w))"

section \<open>A configuration for the concrete runs\<close>

text \<open>
  The concrete runs below need values for the parameters. The two library functions are
  given on the inputs the runs use: a date that \<^verbatim>\<open>moment\<close> formats, and strings without
  \<^verbatim>\<open>%\<close>, which \<^verbatim>\<open>decodeURIComponent\<close> returns as they are.
\<close>

definition demo_config :: config where
  "demo_config =
     \<lparr>GROUP_URL = ''/api/v1/groups/'',
      CATEGORIES_CAMPAIGN_URL = ''/api/v1/categories-campaigns/'',
      SUBSCRIPTION_URL = ''/api/v1/subscriptions/'',
      MENUS = ''/api/v1/menus/'',
      ARTICLE_BOOKMARK = ''/api/v1/articles/bookmark/'',
      ALL_ARTICLE_BOOKMARK = ''/api/v1/bookmark-articles/'',
      ARTICLE_LOGOUT = ''/api/v1/logout/'',
      USERNAME = JStr ''admin'',
      DOMAIN = JStr ''newscout'',
      ID = JNum 5,
      moment_format = (\<lambda>d. if d = JStr ''2020-01-01'' then ''1 January 2020'' else ''Invalid date''),
      decodeURIComponent = (\<lambda>s. if CHR ''%'' \<in> set s then None else Some s)\<rparr>"

section \<open>Concrete runs and the notions of the claims\<close>

text \<open>Two rows a page of groups may bring, the second with no category.\<close>

definition row_sports :: obj where
  "row_sports =
     [(''id'', JNum 7),
      (''category'', JArr [JObj [(''id'', JNum 1), (''name'', JStr ''Sports'')]]),
      (''campaign'', JObj [(''id'', JNum 3), (''name'', JStr ''Summer'')]),
      (''is_active'', JBool True)]"

definition row_bare :: obj where
  "row_bare =
     [(''id'', JNum 8),
      (''category'', JArr []),
      (''campaign'', JObj [(''id'', JNum 3), (''name'', JStr ''Summer'')]),
      (''is_active'', JBool True)]"

text \<open>The cursor of the second page.\<close>

definition page_two :: jsval where
  "page_two = JStr ''/api/v1/groups/?page=2''"

text \<open>The view after it was mounted and its first page of two rows has arrived.\<close>

definition w_loaded :: group_world where
  "w_loaded =
     run demo_config
       [EvMount, EvResponse 0 (RPage (PageBody [row_sports, row_bare] page_two JNull))]
       (Group_constructor demo_config)"

text \<open>
  A field that is "empty or absent", in the words of the specification: no value, null,
  the empty string or the empty list.
\<close>

fun spec_empty :: "jsval \<Rightarrow> bool" where
  "spec_empty JUndefined = True"
| "spec_empty JNull = True"
| "spec_empty (JStr s) = (s = [])"
| "spec_empty (JArr xs) = (xs = [])"
| "spec_empty v = False"

text \<open>The requests in flight that \<^verbatim>\<open>getNext\<close> started, and the scroll events.\<close>

definition pagination_in_flight :: "group_world \<Rightarrow> request list" where
  "pagination_in_flight w = filter (\<lambda>r. origin r = ''getNext'') (pending w)"

fun is_scroll :: "group_event \<Rightarrow> bool" where
  "is_scroll (EvScroll a b h) = True"
| "is_scroll e = False"

text \<open>
  What the loading flag is there for: at most one pagination request is in flight, and
  the flag is set while one is.
\<close>

definition pagination_guard :: "group_world \<Rightarrow> bool" where
  "pagination_guard w =
     (length (pagination_in_flight w) \<le> 1 \<and> (pagination_in_flight w = [] \<or> loading (st w)))"

text \<open>
  The event that defeats the flag: the response to a search or a reload of the collection
  arrives while a pagination request is in flight. A run is calm when it has no such
  event.
\<close>

fun overtakes :: "group_event \<Rightarrow> group_world \<Rightarrow> bool" where
  "overtakes (EvResponse i r) w =
     (i < length (pending w) \<and> callback (pending w ! i) = CbGetGroupsData \<and>
      origin (pending w ! i) \<noteq> ''getNext'' \<and> pagination_in_flight w \<noteq> [])"
| "overtakes e w = False"

fun calm_run :: "config \<Rightarrow> group_event list \<Rightarrow> group_world \<Rightarrow> bool" where
  "calm_run c [] w = True"
| "calm_run c (e # es) w =
     (\<not> overtakes e w \<and> calm_run c es (case step c e w of None \<Rightarrow> w | Some w1 \<Rightarrow> w1))"

text \<open>Every address the state holds is allocated in the store.\<close>

definition wf_world :: "group_world \<Rightarrow> bool" where
  "wf_world w =
     (fields_st (st w) < length (heap w) \<and>
      list_all (\<lambda>a. a < length (heap w)) (results (st w)))"

text \<open>
  The category of the \<^verbatim>\<open>fields\<close> object is absent or a list: the constructor starts with
  no category, and \<^verbatim>\<open>editRow\<close> and \<^verbatim>\<open>handleChange\<close> only ever store a list there.
\<close>

definition fields_category_ok :: "group_world \<Rightarrow> bool" where
  "fields_category_ok w =
     (case obj_get ''category'' (deref (heap w) (fields_st (st w))) of
        JUndefined \<Rightarrow> True
      | JArr xs \<Rightarrow> True
      | _ \<Rightarrow> False)"

text \<open>The two together are the invariant of the view.\<close>

definition inv :: "group_world \<Rightarrow> bool" where
  "inv w = (wf_world w \<and> fields_category_ok w)"

text \<open>The loaded view with its first row in edit mode.\<close>

definition w_edited :: group_world where
  "w_edited = run demo_config [EvEditRow 0 ''7''] w_loaded"

text \<open>
  The loaded view after Edit, Cancel and Edit again on its first row; and after Edit on
  the first row followed by Edit on the second.
\<close>

definition w_reedited :: group_world where
  "w_reedited = run demo_config [EvEditRow 0 ''7'', EvCancelRow 0 ''7'', EvEditRow 0 ''7''] w_loaded"

definition w_two_edits :: group_world where
  "w_two_edits = run demo_config [EvEditRow 0 ''7'', EvEditRow 1 ''8''] w_loaded"

text \<open>
  \<^verbatim>\<open>JSON.stringify\<close> leaves out the properties of an object whose value is undefined:
  the property names that reach the server.
\<close>

fun serialised_keys :: "payload \<Rightarrow> string list" where
  "serialised_keys (JsonStringify (JObj kvs)) =
     map fst (filter (\<lambda>kv. snd kv \<noteq> JUndefined) kvs)"
| "serialised_keys p = []"

text \<open>
  The rows \<^verbatim>\<open>render\<close> puts into \<^verbatim>\<open>#group-table\<close>: the header row, then one row for each
  element of \<^verbatim>\<open>results\<close> with \<^verbatim>\<open>data-row={el.id}\<close>; an attribute with a null or undefined
  value is left out. The handle of a row is its position.
\<close>

definition data_row_attr :: "jsval \<Rightarrow> string option" where
  "data_row_attr v = (case v of JUndefined \<Rightarrow> None | JNull \<Rightarrow> None | _ \<Rightarrow> Some (to_str v))"

definition rendered_table :: "group_world \<Rightarrow> (nat \<times> string option) list" where
  "rendered_table w =
     (0, None) #
     map (\<lambda>i. (Suc i, data_row_attr (obj_get ''id'' (deref (heap w) (results (st w) ! i)))))
       [0 ..< length (results (st w))]"

text \<open>
  The events that clear the collection and fetch the first page again. The claim names
  two of them, a submitted search and the end of a successful create; the code has a
  third, the response to a successful update.
\<close>

fun claimed_reset :: "group_event \<Rightarrow> group_world \<Rightarrow> bool" where
  "claimed_reset (EvKeyPress k) w = (k = ''Enter'')"
| "claimed_reset (EvTimer i) w = (i < length (timers w) \<and> snd (timers w ! i) = TmCloseModalClean)"
| "claimed_reset e w = False"

fun clean_results :: "extra \<Rightarrow> bool" where
  "clean_results (ExtraObj x) = truthy (obj_get ''clean_results'' x)"
| "clean_results x = False"

fun is_obj_response :: "response \<Rightarrow> bool" where
  "is_obj_response (RObj b) = True"
| "is_obj_response r = False"

fun clears_collection :: "group_event \<Rightarrow> group_world \<Rightarrow> bool" where
  "clears_collection (EvKeyPress k) w = (k = ''Enter'')"
| "clears_collection (EvTimer i) w =
     (i < length (timers w) \<and> snd (timers w ! i) = TmCloseModalClean)"
| "clears_collection (EvResponse i r) w =
     (i < length (pending w) \<and> callback (pending w ! i) = CbGroupUpdateResponse \<and>
      clean_results (extra_data (pending w ! i)) \<and> is_obj_response r)"
| "clears_collection e w = False"

text \<open>
  A successful delete is a reset of another kind: the response to the DELETE reloads the
  whole page, and the timer it sets takes the row out of the table.
\<close>

fun is_elem_extra :: "extra \<Rightarrow> bool" where
  "is_elem_extra (ExtraElem f) = True"
| "is_elem_extra x = False"

fun reloads_page :: "group_event \<Rightarrow> group_world \<Rightarrow> bool" where
  "reloads_page (EvResponse i r) w =
     (i < length (pending w) \<and> callback (pending w ! i) = CbDeleteGroupResponse \<and>
      is_elem_extra (extra_data (pending w ! i)) \<and> is_obj_response r)"
| "reloads_page e w = False"

fun is_fade :: "timer \<Rightarrow> bool" where
  "is_fade (TmFadeRow f) = True"
| "is_fade t = False"

fun fades_row :: "group_event \<Rightarrow> group_world \<Rightarrow> bool" where
  "fades_row (EvTimer i) w = (i < length (timers w) \<and> is_fade (snd (timers w ! i)))"
| "fades_row e w = False"

text \<open>
  The request with which a clearing event fetches the first page again, and the requests
  that are still in flight when the event has taken the answered one out.
\<close>

fun refetch :: "config \<Rightarrow> group_event \<Rightarrow> group_world \<Rightarrow> request" where
  "refetch c (EvKeyPress k) w =
     getRequest (GROUP_URL c @ ''?q='' @ q (st w)) CbGetGroupsData AuthHeaders ''handleKeyPress''"
| "refetch c e w = getRequest (GROUP_URL c) CbGetGroupsData AuthHeaders ''getGroups''"

fun still_pending :: "group_event \<Rightarrow> group_world \<Rightarrow> request list" where
  "still_pending (EvResponse i r) w = remove_nth i (pending w)"
| "still_pending e w = pending w"

text \<open>The loaded view after the first row was edited and saved, and with its table rendered.\<close>

definition w_submitted :: group_world where
  "w_submitted = run demo_config [EvEditRow 0 ''7'', EvSubmitRow] w_loaded"

definition w_table :: group_world where
  "w_table = w_loaded\<lparr>table := rendered_table w_loaded\<rparr>"

text \<open>A signed-in cookie jar, three articles (the third has no cover image) and their items.\<close>

definition jar_demo :: "(string \<times> jsval) list" where
  "jar_demo = [(''full_name'', JStr ''Ada''), (''token'', JStr ''t0k'')]"

definition article_one :: obj where
  "article_one =
     [(''id'', JNum 1), (''title'', JStr ''First''), (''blurb'', JStr ''One''),
      (''source'', JStr ''wire''), (''slug'', JStr ''first''), (''category'', JStr ''World''),
      (''hash_tags'', JArr []), (''published_on'', JStr ''2020-01-01''),
      (''cover_image'', JStr ''a.jpg'')]"

definition article_two :: obj where
  "article_two =
     [(''id'', JNum 2), (''title'', JStr ''Second''), (''blurb'', JStr ''Two''),
      (''source'', JStr ''wire''), (''slug'', JStr ''second''), (''category'', JStr ''World''),
      (''hash_tags'', JArr []), (''published_on'', JStr ''2020-01-01''),
      (''cover_image'', JStr ''b.jpg'')]"

definition article_plain :: obj where
  "article_plain =
     [(''id'', JNum 3), (''title'', JStr ''Third''), (''blurb'', JStr ''Three''),
      (''source'', JStr ''wire''), (''slug'', JStr ''third''), (''category'', JStr ''World''),
      (''hash_tags'', JArr []), (''published_on'', JStr ''2020-01-01''),
      (''cover_image'', JNull)]"

definition item_of :: "obj \<Rightarrow> obj" where
  "item_of art = [(''article'', JObj art)]"

text \<open>
  The Bookmark view, mounted by a signed-in user, after its two bookmarks have arrived;
  \<open>answered\<close> takes the request whose response arrives out of the requests in flight.
\<close>

definition answered :: "nat \<Rightarrow> 'a browser_scheme \<Rightarrow> 'a browser_scheme" where
  "answered i w = w\<lparr>pending := remove_nth i (pending w)\<rparr>"

definition w_bookmarks :: bookmark_world where
  "w_bookmarks =
     world_of (getBookmarksArticles demo_config [item_of article_one, item_of article_two]
       (answered 1 (componentDidMount_bm demo_config (Bookmark_constructor demo_config jar_demo))))"

text \<open>The response to the toggle of article 1, naming the article by its id.\<close>

definition toggle_response :: obj where
  "toggle_response =
     [(''bookmark_article'', JObj [(''id'', JNum 9), (''article'', JNum 1), (''status'', JNum 0)])]"

text \<open>Every card carries an identity that has been given out.\<close>

definition ids_given :: "bookmark_world \<Rightarrow> bool" where
  "ids_given w = list_all (\<lambda>p. fst p < next_oid w) (newsPosts (bst w))"

text \<open>
  The articles of a page that \<^verbatim>\<open>getBookmarksArticles\<close> keeps, those with a truthy
  \<^verbatim>\<open>cover_image\<close>; and the pages on which its loop does not throw: every item has an
  article, and every cover image that is kept decodes.
\<close>

fun covered :: "obj list \<Rightarrow> jsval list" where
  "covered [] = []"
| "covered (item # items) =
     (case obj_get ''article'' item of
        JObj art \<Rightarrow>
          (if truthy (obj_get ''cover_image'' art) then JObj art # covered items
           else covered items)
      | _ \<Rightarrow> covered items)"

fun page_ok :: "config \<Rightarrow> obj list \<Rightarrow> bool" where
  "page_ok c [] = True"
| "page_ok c (item # items) =
     (case obj_get ''article'' item of
        JUndefined \<Rightarrow> False
      | JNull \<Rightarrow> False
      | JObj art \<Rightarrow>
          (if truthy (obj_get ''cover_image'' art)
           then decodeURIComponent c (to_str (obj_get ''cover_image'' art)) \<noteq> None
                  \<and> page_ok c items
           else page_ok c items)
      | _ \<Rightarrow> page_ok c items)"

text \<open>One fetch of the bookmarks after the other, each with the page it returns.\<close>

fun fetch_all :: "config \<Rightarrow> obj list list \<Rightarrow> bookmark_world \<Rightarrow> bookmark_world" where
  "fetch_all c [] w = w"
| "fetch_all c (p # ps) w = fetch_all c ps (world_of (getBookmarksArticles c p w))"

section \<open>Properties of the Groups view\<close>

lemma map_of_aset: "map_of (aset k v ps) = (map_of ps)(k \<mapsto> v)"
  by (induction ps) (auto simp: fun_eq_iff)

lemma obj_get_aset: "obj_get k (aset k' v ob) = (if k = k' then v else obj_get k ob)"
  by (simp add: obj_get_def map_of_aset)

subsection \<open>What holds in every state the view reaches\<close>

lemma inv_frame:
  assumes "inv w" and "heap w1 = heap w" and "fields_st (st w1) = fields_st (st w)"
    and "results (st w1) = results (st w) \<or> results (st w1) = []"
  shows "inv w1"
  using assms by (auto simp: inv_def wf_world_def fields_category_ok_def)

lemma inv_constructor: "inv (Group_constructor c)"
  by (simp add: inv_def wf_world_def fields_category_ok_def Group_constructor_def deref_def
        obj_get_def)

lemma frame_handleValidation:
  "heap (fst (handleValidation w)) = heap w
   \<and> fields_st (st (fst (handleValidation w))) = fields_st (st w)
   \<and> results (st (fst (handleValidation w))) = results (st w)"
  by (simp add: handleValidation_def Let_def)

lemma inv_handleValidation: "inv w \<Longrightarrow> inv (fst (handleValidation w))"
  using frame_handleValidation [of w] by (auto intro: inv_frame)

lemma inv_set_field:
  assumes "inv w" and "k = ''category'' \<longrightarrow> (\<exists>xs. v = JArr xs)"
  shows "inv (set_field k v w)"
  using assms
  by (auto simp: inv_def wf_world_def fields_category_ok_def set_field_def deref_def
        obj_get_aset split: jsval.splits)

lemma inv_change_fields: "inv w \<Longrightarrow> inv (world_of (change_fields field e is_editable w))"
  by (auto simp: inv_set_field split: change_arg.splits)

lemma inv_handleChange: "inv w \<Longrightarrow> inv (world_of (handleChange field e is_editable w))"
proof (cases "change_fields field e is_editable w")
  case (Returned w1)
  assume "inv w"
  with inv_change_fields [of w field e is_editable] Returned have "inv w1" by simp
  with Returned show ?thesis by (simp add: handleChange_def inv_handleValidation)
next
  case (Threw err w1)
  assume "inv w"
  with inv_change_fields [of w field e is_editable] Threw show ?thesis
    by (simp add: handleChange_def)
qed

lemma inv_groupSubmit: "inv w \<Longrightarrow> inv (groupSubmit c w)"
  by (rule inv_frame [of w]) (simp_all add: groupSubmit_def handleValidation_def Let_def send_def)

lemma inv_submitRow: "inv w \<Longrightarrow> inv (world_of (submitRow c w))"
  by (rule inv_frame [of w])
     (simp_all add: submitRow_def handleValidation_def Let_def send_def
        split: jsval.splits option.splits)

lemma inv_editRow:
  assumes "inv w"
  shows "inv (world_of (editRow i d w))"
proof (cases "i < length (results (st w))")
  case False
  with assms show ?thesis by (simp add: editRow_def)
next
  case True
  with assms have a: "results (st w) ! i < length (heap w)"
    by (simp add: inv_def wf_world_def list_all_length)
  show ?thesis
  proof (cases "edit_categories (obj_get ''category'' (deref (heap w) (results (st w) ! i)))")
    case None
    with True assms show ?thesis by (simp add: editRow_def Let_def)
  next
    case (Some cats)
    with True a assms show ?thesis
      by (simp add: editRow_def Let_def inv_def wf_world_def fields_category_ok_def deref_def
            obj_get_aset)
  qed
qed

lemma inv_handleScroll: "inv w \<Longrightarrow> inv (handleScroll a b h w)"
  by (rule inv_frame [of w]) (simp_all add: handleScroll_def getNext_def send_def)

lemma inv_isSideBarToogle: "inv w \<Longrightarrow> inv (isSideBarToogle d w)"
  by (rule inv_frame [of w]) (simp_all add: isSideBarToogle_def cookies_set_def cookies_remove_def)

lemma inv_toggleSwitch: "inv w \<Longrightarrow> inv (toggleSwitch d w)"
  by (rule inv_frame [of w])
     (simp_all add: toggleSwitch_def cookies_set_def cookies_remove_def dark_style_on_def
        dark_style_off_def Let_def split: option.splits)

lemma inv_componentDidMount: "inv w \<Longrightarrow> inv (componentDidMount c w)"
  by (rule inv_frame [of w])
     (simp_all add: componentDidMount_def getGroups_def send_def getTheme_def dark_style_on_def
        dark_style_off_def Let_def split: option.splits)

lemma inv_getGroupsData: "inv w \<Longrightarrow> inv (getGroupsData b w)"
  by (cases b)
     (auto simp: inv_def wf_world_def fields_category_ok_def deref_def nth_append list_all_iff)

lemma inv_deliver: "inv w \<Longrightarrow> deliver c cb x r w = Some w1 \<Longrightarrow> inv w1"
proof (induction c cb x r w rule: deliver.induct)
  case (1 c x b w)
  then show ?case by (auto simp: inv_getGroupsData)
next
  case (2 c x b w)
  from "2.prems" have "w1 = world_of (getCampaignCategories b w)" by simp
  moreover have "inv (world_of (getCampaignCategories b w))"
    by (rule inv_frame [OF "2.prems"(1)])
       (simp_all add: getCampaignCategories_def split: option.splits)
  ultimately show ?case by simp
next
  case (3 c x b w)
  from "3.prems" have "w1 = groupSubmitResponse b x w" by simp
  moreover have "inv (groupSubmitResponse b x w)"
    by (rule inv_frame [OF "3.prems"(1)])
       (simp_all add: groupSubmitResponse_def setTimeout_def Let_def)
  ultimately show ?case by simp
next
  case (4 c x b w)
  from "4.prems" have "w1 = groupUpdateResponse c b x w" by simp
  moreover have "inv (groupUpdateResponse c b x w)"
    by (rule inv_frame [OF "4.prems"(1)])
       (simp_all add: groupUpdateResponse_def getGroups_def send_def notify_def Let_def)
  ultimately show ?case by simp
next
  case (5 c f b w)
  from "5.prems" have "w1 = deleteGroupResponse b f w" by simp
  moreover have "inv (deleteGroupResponse b f w)"
    by (rule inv_frame [OF "5.prems"(1)])
       (simp_all add: deleteGroupResponse_def setTimeout_def notify_def Let_def)
  ultimately show ?case by simp
qed simp_all

lemma inv_fire_timer: "inv w \<Longrightarrow> inv (world_of (fire_timer c t w))"
proof (induction c t w rule: fire_timer.induct)
  case (1 c w)
  show ?case by (rule inv_frame [OF 1]) (simp_all add: getGroups_def send_def)
next
  case (2 c w)
  show ?case by (rule inv_frame [OF 2]) (simp_all add: getGroups_def send_def)
next
  case (3 c w)
  then show ?case by simp
next
  case (4 c h w)
  show ?case by (rule inv_frame [OF 4]) simp_all
next
  case (5 c w)
  then show ?case by simp
qed

text \<open>
  In every state the view reaches from its constructor, the addresses it holds are
  allocated and the category of \<^verbatim>\<open>fields\<close> is absent or a list.
\<close>

lemma inv_step:
  assumes "inv w" and "step c e w = Some w1"
  shows "inv w1"
proof (cases e)
  case (EvQueryChange v)
  with assms(2) have "w1 = handleQueryChange v w" by simp
  moreover have "inv (handleQueryChange v w)"
    by (rule inv_frame [OF assms(1)]) (simp_all add: handleQueryChange_def)
  ultimately show ?thesis by simp
next
  case (EvKeyPress k)
  with assms(2) have "w1 = handleKeyPress c k w" by simp
  moreover have "inv (handleKeyPress c k w)"
    by (rule inv_frame [OF assms(1)]) (simp_all add: handleKeyPress_def send_def)
  ultimately show ?thesis by simp
next
  case (EvChange field a b)
  with assms inv_handleChange [of w field a b] show ?thesis by simp
next
  case EvGroupSubmit
  with assms inv_groupSubmit [of w c] show ?thesis by simp
next
  case EvToggle
  with assms(2) have "w1 = toggle w" by simp
  moreover have "inv (toggle w)"
    by (rule inv_frame [OF assms(1)]) (simp_all add: toggle_def)
  ultimately show ?thesis by simp
next
  case EvSubmitRow
  with assms inv_submitRow [of w c] show ?thesis by simp
next
  case (EvEditRow i d)
  with assms inv_editRow [of w i d] show ?thesis by simp
next
  case (EvCancelRow i d)
  with assms(2) have "w1 = cancelRow i d w" by simp
  moreover have "inv (cancelRow i d w)"
    by (rule inv_frame [OF assms(1)]) (simp_all add: cancelRow_def)
  ultimately show ?thesis by simp
next
  case (EvDeleteRow d)
  with assms(2) have "w1 = deleteRow c d w" by simp
  moreover have "inv (deleteRow c d w)"
    by (rule inv_frame [OF assms(1)]) (simp_all add: deleteRow_def send_def Let_def)
  ultimately show ?thesis by simp
next
  case (EvScroll a b h)
  with assms inv_handleScroll [of w a b h] show ?thesis by simp
next
  case (EvSideBar d)
  with assms inv_isSideBarToogle [of w d] show ?thesis by simp
next
  case (EvToggleSwitch d)
  with assms inv_toggleSwitch [of w d] show ?thesis by simp
next
  case EvMount
  with assms inv_componentDidMount [of w c] show ?thesis by simp
next
  case (EvResponse i r)
  with assms(2) have d: "deliver c (callback (pending w ! i)) (extra_data (pending w ! i)) r
              (w\<lparr>pending := remove_nth i (pending w)\<rparr>) = Some w1"
    by (simp split: if_splits)
  have "inv (w\<lparr>pending := remove_nth i (pending w)\<rparr>)"
    by (rule inv_frame [OF assms(1)]) simp_all
  from inv_deliver [OF this d] show ?thesis .
next
  case (EvTimer i)
  with assms(2) have w1: "w1 = world_of (fire_timer c (snd (timers w ! i))
      (w\<lparr>timers := remove_nth i (timers w)\<rparr>))"
    by (simp split: if_splits)
  have "inv (w\<lparr>timers := remove_nth i (timers w)\<rparr>)"
    by (rule inv_frame [OF assms(1)]) simp_all
  from inv_fire_timer [OF this] w1 show ?thesis by simp
qed

lemma inv_run: "inv w \<Longrightarrow> inv (run c es w)"
proof (induction es arbitrary: w)
  case Nil
  then show ?case by simp
next
  case (Cons e es)
  show ?case
  proof (cases "step c e w")
    case None
    with Cons show ?thesis by simp
  next
    case (Some w1)
    with Cons.prems have "inv w1" by (rule inv_step [of w c e])
    with Cons.IH [of w1] Some show ?thesis by simp
  qed
qed

lemma reachable_valid_category:
  assumes "snd (handleValidation (run c es (Group_constructor c)))"
  shows "\<exists>items. obj_get ''category''
           (deref (heap (run c es (Group_constructor c)))
              (fields_st (st (run c es (Group_constructor c))))) = JArr items"
proof -
  let ?w = "run c es (Group_constructor c)"
  have "inv ?w" by (rule inv_run [OF inv_constructor])
  then have ok: "fields_category_ok ?w" by (simp add: inv_def)
  from assms have "truthy (obj_get ''category'' (deref (heap ?w) (fields_st (st ?w))))"
    by (simp add: handleValidation_def Let_def split: if_splits)
  with ok show ?thesis
    by (cases "obj_get ''category'' (deref (heap ?w) (fields_st (st ?w)))")
       (simp_all add: fields_category_ok_def)
qed

subsection \<open>The claims about the Groups view\<close>

lemma handleScroll_cases:
  "handleScroll a b h w = w \<or>
   (\<not> loading (st w) \<and> loading (st (handleScroll a b h w)) \<and>
    length (pending (handleScroll a b h w)) = Suc (length (pending w)))"
  by (simp add: handleScroll_def getNext_def send_def)

lemma handleScroll_loading: "loading (st w) \<Longrightarrow> handleScroll a b h w = w"
  by (simp add: handleScroll_def)

lemma run_scrolls_idle:
  "list_all is_scroll es \<Longrightarrow> loading (st w) \<Longrightarrow> run c es w = w"
proof (induction es)
  case Nil
  show ?case by simp
next
  case (Cons e es)
  then show ?case by (cases e) (simp_all add: handleScroll_loading)
qed

lemma run_scrolls_pending:
  "list_all is_scroll es \<Longrightarrow> length (pending (run c es w)) \<le> Suc (length (pending w))"
proof (induction es arbitrary: w)
  case Nil
  show ?case by simp
next
  case (Cons e es)
  from Cons.prems obtain a b h where e: "e = EvScroll a b h" and rest: "list_all is_scroll es"
    by (cases e) simp_all
  show ?case
  proof (cases "handleScroll a b h w = w")
    case True
    with Cons.IH [OF rest, of w] e show ?thesis by simp
  next
    case False
    with handleScroll_cases [of a b h w]
    have ld: "loading (st (handleScroll a b h w))"
      and len: "length (pending (handleScroll a b h w)) = Suc (length (pending w))"
      by auto
    from run_scrolls_idle [OF rest ld] len e show ?thesis by simp
  qed
qed

text \<open>
  The scroll handler and the page response, one call at a time. The scroll handler makes
  no transport call when the \<^verbatim>\<open>next\<close> cursor is falsy (null, undefined or the empty
  string), when the loading flag is set, or when the page is not scrolled to its bottom.
  Otherwise it makes exactly one GET for the \<^verbatim>\<open>next\<close> URL, sets the loading flag and
  counts the page. When a page response is applied, its rows are appended behind the rows
  already there and the two cursors are replaced. Any run of scroll events with no other
  event in between makes at most one transport call.
\<close>

lemma handleScroll_pagination:
  "(\<not> truthy (next (st w)) \<or> loading (st w) \<or> a \<noteq> b - h \<longrightarrow> handleScroll a b h w = w)
   \<and> (truthy (next (st w)) \<and> \<not> loading (st w) \<and> a = b - h \<longrightarrow>
        handleScroll a b h w =
          w\<lparr>pending := pending w @
               [getRequest (to_str (next (st w))) CbGetGroupsData AuthHeaders ''getNext''],
            st := (st w)\<lparr>loading := True, page := page (st w) + 1\<rparr>\<rparr>)
   \<and> getGroupsData (PageBody rs nx pv) w =
        w\<lparr>heap := heap w @ rs,
          st := (st w)\<lparr>results := results (st w) @ [length (heap w) ..< length (heap w) + length rs],
                        next := nx, previous := pv, loading := False\<rparr>\<rparr>
   \<and> map (deref (heap (getGroupsData (PageBody rs nx pv) w)))
          [length (heap w) ..< length (heap w) + length rs] = rs
   \<and> (list_all is_scroll es \<longrightarrow> length (pending (run c es w)) \<le> Suc (length (pending w)))"
proof -
  have idle: "\<not> truthy (next (st w)) \<or> loading (st w) \<or> a \<noteq> b - h \<longrightarrow> handleScroll a b h w = w"
    by (auto simp: handleScroll_def)
  have fetch: "truthy (next (st w)) \<and> \<not> loading (st w) \<and> a = b - h \<longrightarrow>
        handleScroll a b h w =
          w\<lparr>pending := pending w @
               [getRequest (to_str (next (st w))) CbGetGroupsData AuthHeaders ''getNext''],
            st := (st w)\<lparr>loading := True, page := page (st w) + 1\<rparr>\<rparr>"
    by (simp add: handleScroll_def getNext_def send_def)
  have rows: "map (deref (heap (getGroupsData (PageBody rs nx pv) w)))
          [length (heap w) ..< length (heap w) + length rs] = rs"
    by (rule nth_equalityI) (simp_all add: deref_def nth_append)
  from idle fetch rows run_scrolls_pending [of es c w] show ?thesis by simp
qed

text \<open>The loaded view, scrolled to the bottom twice.\<close>

lemma handleScroll_pagination_loaded:
  "truthy (next (st w_loaded)) \<and> \<not> loading (st w_loaded) \<and> (0::int) = 0 - 0
   \<and> list_all is_scroll [EvScroll 0 0 0, EvScroll 0 0 0]
   \<and> map url (pending (handleScroll 0 0 0 w_loaded)) =
        [''/api/v1/categories-campaigns/'', ''/api/v1/groups/?page=2'']
   \<and> handleScroll 0 0 0 (handleScroll 0 0 0 w_loaded) = handleScroll 0 0 0 w_loaded
   \<and> length (pending (run demo_config [EvScroll 0 0 0, EvScroll 0 0 0] w_loaded)) \<le> 2"
proof -
  have hyp: "truthy (next (st w_loaded)) \<and> \<not> loading (st w_loaded) \<and> (0::int) = 0 - 0"
    by code_simp
  have p: "pending w_loaded =
      [getRequest ''/api/v1/categories-campaigns/'' CbGetCampaignCategories AuthHeaders
         ''componentDidMount'']"
    by code_simp
  have n: "to_str (next (st w_loaded)) = ''/api/v1/groups/?page=2''"
    by code_simp
  have sc: "list_all is_scroll [EvScroll 0 0 0, EvScroll 0 0 0]" by simp
  note t1 = handleScroll_pagination [of w_loaded 0 0 0 "[]" JNull JNull
      "[EvScroll 0 0 0, EvScroll 0 0 0]" demo_config]
  note t2 = handleScroll_pagination [of "handleScroll 0 0 0 w_loaded" 0 0 0 "[]" JNull JNull "[]"
      demo_config]
  from t1 hyp have e1: "handleScroll 0 0 0 w_loaded =
          w_loaded\<lparr>pending := pending w_loaded @
               [getRequest (to_str (next (st w_loaded))) CbGetGroupsData AuthHeaders ''getNext''],
            st := (st w_loaded)\<lparr>loading := True, page := page (st w_loaded) + 1\<rparr>\<rparr>"
    by blast
  then have ld: "loading (st (handleScroll 0 0 0 w_loaded))" by simp
  with t2 have e2: "handleScroll 0 0 0 (handleScroll 0 0 0 w_loaded) = handleScroll 0 0 0 w_loaded"
    by blast
  from t1 sc p have e3: "length (pending (run demo_config [EvScroll 0 0 0, EvScroll 0 0 0] w_loaded)) \<le> 2"
    by simp
  from e1 p n have e4: "map url (pending (handleScroll 0 0 0 w_loaded)) =
        [''/api/v1/categories-campaigns/'', ''/api/v1/groups/?page=2'']"
    by (simp add: getRequest_def)
  from hyp sc e4 e2 e3 show ?thesis by blast
qed

lemma filter_remove_nth_le: "length (filter P (remove_nth i xs)) \<le> length (filter P xs)"
proof (induction xs arbitrary: i)
  case Nil
  show ?case by (simp add: remove_nth_def)
next
  case (Cons x xs)
  show ?case
  proof (cases i)
    case 0
    then show ?thesis by (simp add: remove_nth_def)
  next
    case (Suc j)
    with Cons.IH [of j] show ?thesis by (simp add: remove_nth_def)
  qed
qed

lemma filter_remove_nth_less:
  "i < length xs \<Longrightarrow> P (xs ! i) \<Longrightarrow>
   length (filter P (remove_nth i xs)) < length (filter P xs)"
proof (induction xs arbitrary: i)
  case Nil
  then show ?case by simp
next
  case (Cons x xs)
  show ?case
  proof (cases i)
    case 0
    with Cons.prems show ?thesis by (simp add: remove_nth_def)
  next
    case (Suc j)
    with Cons.prems Cons.IH [of j] show ?thesis by (simp add: remove_nth_def)
  qed
qed

lemma guard_frame:
  assumes "pagination_guard w"
    and "pagination_in_flight w1 = pagination_in_flight w"
    and "loading (st w) \<longrightarrow> loading (st w1)"
  shows "pagination_guard w1"
  using assms by (auto simp: pagination_guard_def)

lemma guard_constructor: "pagination_guard (Group_constructor c)"
  by (simp add: pagination_guard_def pagination_in_flight_def Group_constructor_def)

lemma guard_answered:
  assumes "pagination_guard w"
  shows "pagination_guard (w\<lparr>pending := remove_nth i (pending w)\<rparr>)"
proof -
  have "length (pagination_in_flight (w\<lparr>pending := remove_nth i (pending w)\<rparr>))
          \<le> length (pagination_in_flight w)"
    by (simp add: pagination_in_flight_def filter_remove_nth_le)
  with assms show ?thesis by (auto simp: pagination_guard_def)
qed

lemma flight_handleValidation:
  "pagination_in_flight (fst (handleValidation w)) = pagination_in_flight w
   \<and> loading (st (fst (handleValidation w))) = loading (st w)"
  by (simp add: handleValidation_def Let_def pagination_in_flight_def)

lemma flight_set_field:
  "pagination_in_flight (set_field k v w) = pagination_in_flight w
   \<and> loading (st (set_field k v w)) = loading (st w)"
  by (simp add: set_field_def pagination_in_flight_def)

lemma flight_change_fields:
  "pagination_in_flight (world_of (change_fields field e is_editable w)) = pagination_in_flight w
   \<and> loading (st (world_of (change_fields field e is_editable w))) = loading (st w)"
  by (simp add: flight_set_field split: change_arg.splits)

lemma flight_handleChange:
  "pagination_in_flight (world_of (handleChange field e is_editable w)) = pagination_in_flight w
   \<and> loading (st (world_of (handleChange field e is_editable w))) = loading (st w)"
proof (cases "change_fields field e is_editable w")
  case (Returned w1)
  with flight_change_fields [of field e is_editable w] show ?thesis
    by (simp add: handleChange_def flight_handleValidation)
next
  case (Threw err w1)
  with flight_change_fields [of field e is_editable w] show ?thesis
    by (simp add: handleChange_def)
qed

lemma flight_handleKeyPress:
  "pagination_in_flight (handleKeyPress c k w) = pagination_in_flight w
   \<and> loading (st (handleKeyPress c k w)) = loading (st w)"
  by (simp add: handleKeyPress_def send_def getRequest_def pagination_in_flight_def)

lemma flight_groupSubmit:
  "pagination_in_flight (groupSubmit c w) = pagination_in_flight w
   \<and> loading (st (groupSubmit c w)) = loading (st w)"
  by (simp add: groupSubmit_def handleValidation_def Let_def send_def postRequest_def
        pagination_in_flight_def)

lemma flight_submitRow:
  "pagination_in_flight (world_of (submitRow c w)) = pagination_in_flight w
   \<and> loading (st (world_of (submitRow c w))) = loading (st w)"
  by (simp add: submitRow_def handleValidation_def Let_def send_def putRequest_def
        pagination_in_flight_def split: jsval.splits option.splits)

lemma flight_editRow:
  "pagination_in_flight (world_of (editRow i d w)) = pagination_in_flight w
   \<and> loading (st (world_of (editRow i d w))) = loading (st w)"
  by (simp add: editRow_def Let_def pagination_in_flight_def split: option.splits)

lemma flight_deleteRow:
  "pagination_in_flight (deleteRow c d w) = pagination_in_flight w
   \<and> loading (st (deleteRow c d w)) = loading (st w)"
  by (simp add: deleteRow_def Let_def send_def deleteRequest_def pagination_in_flight_def)

lemma flight_isSideBarToogle:
  "pagination_in_flight (isSideBarToogle d w) = pagination_in_flight w
   \<and> loading (st (isSideBarToogle d w)) = loading (st w)"
  by (simp add: isSideBarToogle_def cookies_set_def cookies_remove_def pagination_in_flight_def)

lemma flight_toggleSwitch:
  "pagination_in_flight (toggleSwitch d w) = pagination_in_flight w
   \<and> loading (st (toggleSwitch d w)) = loading (st w)"
  by (simp add: toggleSwitch_def cookies_set_def cookies_remove_def dark_style_on_def
        dark_style_off_def Let_def pagination_in_flight_def split: option.splits)

lemma flight_componentDidMount:
  "pagination_in_flight (componentDidMount c w) = pagination_in_flight w
   \<and> loading (st (componentDidMount c w)) = loading (st w)"
  by (simp add: componentDidMount_def getGroups_def send_def getRequest_def getTheme_def
        dark_style_on_def dark_style_off_def Let_def pagination_in_flight_def
        split: option.splits)

lemma guard_handleScroll:
  assumes "pagination_guard w"
  shows "pagination_guard (handleScroll a b h w)"
proof (cases "handleScroll a b h w = w")
  case True
  with assms show ?thesis by simp
next
  case False
  then have nl: "\<not> loading (st w)"
    and eq: "handleScroll a b h w = getNext w"
    by (auto simp: handleScroll_def split: if_splits)
  from assms nl have "pagination_in_flight w = []" by (simp add: pagination_guard_def)
  then show ?thesis
    unfolding eq
    by (simp add: pagination_guard_def pagination_in_flight_def getNext_def send_def
          getRequest_def)
qed

lemma flight_other_callbacks:
  "pagination_in_flight (world_of (getCampaignCategories b w)) = pagination_in_flight w
   \<and> loading (st (world_of (getCampaignCategories b w))) = loading (st w)
   \<and> pagination_in_flight (groupSubmitResponse b x w) = pagination_in_flight w
   \<and> loading (st (groupSubmitResponse b x w)) = loading (st w)
   \<and> pagination_in_flight (deleteGroupResponse b f w) = pagination_in_flight w
   \<and> loading (st (deleteGroupResponse b f w)) = loading (st w)"
  by (simp add: getCampaignCategories_def groupSubmitResponse_def deleteGroupResponse_def
        setTimeout_def notify_def Let_def pagination_in_flight_def split: option.splits)

lemma flight_groupUpdateResponse:
  "pagination_in_flight (groupUpdateResponse c b x w) = pagination_in_flight w
   \<and> (loading (st w) \<longrightarrow> loading (st (groupUpdateResponse c b x w)))"
  by (simp add: groupUpdateResponse_def getGroups_def send_def getRequest_def notify_def
        Let_def pagination_in_flight_def)

lemma flight_deliver:
  "deliver c cb x r w = Some w1 \<Longrightarrow> cb \<noteq> CbGetGroupsData \<Longrightarrow>
   pagination_in_flight w1 = pagination_in_flight w \<and> (loading (st w) \<longrightarrow> loading (st w1))"
proof (induction c cb x r w rule: deliver.induct)
  case (1 c x b w)
  then show ?case by simp
next
  case (2 c x b w)
  then show ?case by (auto simp: flight_other_callbacks)
next
  case (3 c x b w)
  then show ?case by (auto simp: flight_other_callbacks)
next
  case (4 c x b w)
  then show ?case by (auto simp: flight_groupUpdateResponse)
next
  case (5 c f b w)
  then show ?case by (auto simp: flight_other_callbacks)
qed simp_all

lemma guard_fire_timer:
  "pagination_guard w \<Longrightarrow> pagination_guard (world_of (fire_timer c t w))"
  by (induction c t w rule: fire_timer.induct)
     (auto simp: pagination_guard_def pagination_in_flight_def getGroups_def send_def
        getRequest_def)

text \<open>
  The flag does its work as long as no response of a search or a reload overtakes a
  pagination request.
\<close>

lemma guard_step:
  assumes g: "pagination_guard w" and calm: "\<not> overtakes e w" and s: "step c e w = Some w1"
  shows "pagination_guard w1"
proof (cases e)
  case (EvQueryChange v)
  with s have w1: "w1 = handleQueryChange v w" by simp
  show ?thesis unfolding w1
    by (rule guard_frame [OF g]) (simp_all add: handleQueryChange_def pagination_in_flight_def)
next
  case (EvKeyPress k)
  with s have w1: "w1 = handleKeyPress c k w" by simp
  show ?thesis unfolding w1
    by (rule guard_frame [OF g]) (simp_all add: flight_handleKeyPress)
next
  case (EvChange field a b)
  with s have w1: "w1 = world_of (handleChange field a b w)" by simp
  show ?thesis unfolding w1
    by (rule guard_frame [OF g]) (simp_all add: flight_handleChange)
next
  case EvGroupSubmit
  with s have w1: "w1 = groupSubmit c w" by simp
  show ?thesis unfolding w1
    by (rule guard_frame [OF g]) (simp_all add: flight_groupSubmit)
next
  case EvToggle
  with s have w1: "w1 = toggle w" by simp
  show ?thesis unfolding w1
    by (rule guard_frame [OF g]) (simp_all add: toggle_def pagination_in_flight_def)
next
  case EvSubmitRow
  with s have w1: "w1 = world_of (submitRow c w)" by simp
  show ?thesis unfolding w1
    by (rule guard_frame [OF g]) (simp_all add: flight_submitRow)
next
  case (EvEditRow i d)
  with s have w1: "w1 = world_of (editRow i d w)" by simp
  show ?thesis unfolding w1
    by (rule guard_frame [OF g]) (simp_all add: flight_editRow)
next
  case (EvCancelRow i d)
  with s have w1: "w1 = cancelRow i d w" by simp
  show ?thesis unfolding w1
    by (rule guard_frame [OF g]) (simp_all add: cancelRow_def pagination_in_flight_def)
next
  case (EvDeleteRow d)
  with s have w1: "w1 = deleteRow c d w" by simp
  show ?thesis unfolding w1
    by (rule guard_frame [OF g]) (simp_all add: flight_deleteRow)
next
  case (EvScroll a b h)
  with s have w1: "w1 = handleScroll a b h w" by simp
  show ?thesis unfolding w1 by (rule guard_handleScroll [OF g])
next
  case (EvSideBar d)
  with s have w1: "w1 = isSideBarToogle d w" by simp
  show ?thesis unfolding w1
    by (rule guard_frame [OF g]) (simp_all add: flight_isSideBarToogle)
next
  case (EvToggleSwitch d)
  with s have w1: "w1 = toggleSwitch d w" by simp
  show ?thesis unfolding w1
    by (rule guard_frame [OF g]) (simp_all add: flight_toggleSwitch)
next
  case EvMount
  with s have w1: "w1 = componentDidMount c w" by simp
  show ?thesis unfolding w1
    by (rule guard_frame [OF g]) (simp_all add: flight_componentDidMount)
next
  case (EvTimer i)
  with s have w1: "w1 = world_of (fire_timer c (snd (timers w ! i))
      (w\<lparr>timers := remove_nth i (timers w)\<rparr>))"
    by (simp split: if_splits)
  have "pagination_guard (w\<lparr>timers := remove_nth i (timers w)\<rparr>)"
    by (rule guard_frame [OF g]) (simp_all add: pagination_in_flight_def)
  then show ?thesis unfolding w1 by (rule guard_fire_timer)
next
  case (EvResponse i r)
  let ?w = "w\<lparr>pending := remove_nth i (pending w)\<rparr>"
  let ?cb = "callback (pending w ! i)"
  let ?x = "extra_data (pending w ! i)"
  from EvResponse s have i: "i < length (pending w)"
    and d: "deliver c ?cb ?x r ?w = Some w1"
    by (simp_all split: if_splits)
  have gw: "pagination_guard ?w" by (rule guard_answered [OF g])
  show ?thesis
  proof (cases "?cb = CbGetGroupsData")
    case True
    with d obtain b where r: "r = RPage b" and w1: "w1 = getGroupsData b ?w"
      by (cases r) simp_all
    have none: "pagination_in_flight ?w = []"
    proof (cases "origin (pending w ! i) = ''getNext''")
      case True
      with i have "length (filter (\<lambda>r. origin r = ''getNext'') (remove_nth i (pending w)))
          < length (filter (\<lambda>r. origin r = ''getNext'') (pending w))"
        by (intro filter_remove_nth_less) simp_all
      moreover from g have "length (filter (\<lambda>r. origin r = ''getNext'') (pending w)) \<le> 1"
        by (simp add: pagination_guard_def pagination_in_flight_def)
      ultimately have "length (filter (\<lambda>r. origin r = ''getNext'') (remove_nth i (pending w))) = 0"
        by arith
      then show ?thesis by (simp add: pagination_in_flight_def)
    next
      case False
      with calm EvResponse i True have "pagination_in_flight w = []" by simp
      moreover have "length (pagination_in_flight ?w) \<le> length (pagination_in_flight w)"
        by (simp add: pagination_in_flight_def filter_remove_nth_le)
      ultimately show ?thesis by simp
    qed
    have "pagination_in_flight (getGroupsData b ?w) = pagination_in_flight ?w"
      by (cases b) (simp_all add: pagination_in_flight_def)
    with none show ?thesis unfolding w1 by (simp add: pagination_guard_def)
  next
    case False
    from flight_deliver [OF d False]
    have "pagination_in_flight w1 = pagination_in_flight ?w
        \<and> (loading (st ?w) \<longrightarrow> loading (st w1))" .
    then show ?thesis by (intro guard_frame [OF gw]) simp_all
  qed
qed

lemma guard_run:
  "pagination_guard w \<Longrightarrow> calm_run c es w \<Longrightarrow> pagination_guard (run c es w)"
proof (induction es arbitrary: w)
  case Nil
  then show ?case by simp
next
  case (Cons e es)
  show ?case
  proof (cases "step c e w")
    case None
    with Cons show ?thesis by simp
  next
    case (Some w1)
    from Cons.prems have ne: "\<not> overtakes e w" by simp
    from Cons.prems(1) ne Some have "pagination_guard w1" by (rule guard_step)
    with Cons.IH [of w1] Cons.prems(2) Some show ?thesis by simp
  qed
qed

text \<open>
  In every calm run from the constructor at most one pagination request is in flight.
\<close>

lemma at_most_one_pagination_request:
  "calm_run c es (Group_constructor c) \<Longrightarrow>
   length (pagination_in_flight (run c es (Group_constructor c))) \<le> 1"
  using guard_run [OF guard_constructor, of c es] by (simp add: pagination_guard_def)

text \<open>
  Claim C1 at a concrete run, where the code fails it. The claim says that while a page
  is being fetched no second pagination request is started. The view is loaded and the
  user submits a search: \<^verbatim>\<open>handleKeyPress\<close> clears the collection and starts the GET of
  the search, but does not set the loading flag, as the reload after a create and the
  reload after an update do. The user scrolls to the bottom: the flag is clear, so the
  request for page 2 starts and sets it. The response of the search arrives and
  \<^verbatim>\<open>getGroupsData\<close> clears the flag while the request for page 2 is pending. The user
  scrolls to the bottom again: a second pagination request starts, and two are in flight.
  The run is not calm: its third event is a response that overtakes a pagination request.
\<close>

theorem C1_second_request_in_flight:
  "\<not> loading (st (run demo_config [EvKeyPress ''Enter''] w_loaded))
   \<and> map origin (pending (run demo_config [EvKeyPress ''Enter''] w_loaded)) =
       [''componentDidMount'', ''handleKeyPress'']
   \<and> loading (st (run demo_config
          [EvKeyPress ''Enter'', EvScroll 0 0 0]
          w_loaded))
   \<and> map origin (pending (run demo_config
          [EvKeyPress ''Enter'', EvScroll 0 0 0]
          w_loaded)) =
       [''componentDidMount'', ''handleKeyPress'', ''getNext'']
   \<and> \<not> loading (st (run demo_config
          [EvKeyPress ''Enter'',
           EvScroll 0 0 0,
           EvResponse 1 (RPage (PageBody [row_bare] (JStr ''/api/v1/groups/?page=2&q='') JNull))]
          w_loaded))
   \<and> map origin (pending (run demo_config
          [EvKeyPress ''Enter'',
           EvScroll 0 0 0,
           EvResponse 1 (RPage (PageBody [row_bare] (JStr ''/api/v1/groups/?page=2&q='') JNull))]
          w_loaded)) =
       [''componentDidMount'', ''getNext'']
   \<and> map origin (pending (run demo_config
          [EvKeyPress ''Enter'',
           EvScroll 0 0 0,
           EvResponse 1 (RPage (PageBody [row_bare] (JStr ''/api/v1/groups/?page=2&q='') JNull)),
           EvScroll 0 0 0]
          w_loaded)) =
       [''componentDidMount'', ''getNext'', ''getNext'']
   \<and> map url (pending (run demo_config
          [EvKeyPress ''Enter'',
           EvScroll 0 0 0,
           EvResponse 1 (RPage (PageBody [row_bare] (JStr ''/api/v1/groups/?page=2&q='') JNull)),
           EvScroll 0 0 0]
          w_loaded)) =
       [''/api/v1/categories-campaigns/'', ''/api/v1/groups/?page=2'',
        ''/api/v1/groups/?page=2&q='']
   \<and> length (pagination_in_flight (run demo_config
          [EvKeyPress ''Enter'',
           EvScroll 0 0 0,
           EvResponse 1 (RPage (PageBody [row_bare] (JStr ''/api/v1/groups/?page=2&q='') JNull)),
           EvScroll 0 0 0]
          w_loaded)) = 2
   \<and> \<not> calm_run demo_config
          [EvKeyPress ''Enter'',
           EvScroll 0 0 0,
           EvResponse 1 (RPage (PageBody [row_bare] (JStr ''/api/v1/groups/?page=2&q='') JNull)),
           EvScroll 0 0 0]
          w_loaded"
  by code_simp

text \<open>
  Claim C2, as the code has it. \<^verbatim>\<open>handleValidation\<close> stores an error entry for
  \<^verbatim>\<open>category\<close> and for \<^verbatim>\<open>campaign\<close> exactly when the value of the field is falsy
  (absent, null, false, 0 or the empty string), in that order, and returns true exactly
  when it stored none; the rest of the state stays. For the empty \<^verbatim>\<open>fields\<close> object of the
  constructor both entries are there.
\<close>

theorem C2_validation:
  "handleValidation w =
     (w\<lparr>st := (st w)\<lparr>errors :=
          (if truthy (obj_get ''category'' (deref (heap w) (fields_st (st w)))) then []
           else [(''category'', ''This fields is required'')]) @
          (if truthy (obj_get ''campaign'' (deref (heap w) (fields_st (st w)))) then []
           else [(''campaign'', ''This fields is required'')])\<rparr>\<rparr>,
      truthy (obj_get ''category'' (deref (heap w) (fields_st (st w)))) \<and>
      truthy (obj_get ''campaign'' (deref (heap w) (fields_st (st w)))))
   \<and> errors (st (fst (handleValidation (Group_constructor c)))) =
        [(''category'', ''This fields is required''), (''campaign'', ''This fields is required'')]"
  by (simp add: handleValidation_def Let_def Group_constructor_def deref_def obj_get_def)

text \<open>
  Claim C2 as it is written fails for a field that is empty without being falsy: the
  second row has the empty list as its category; once \<^verbatim>\<open>editRow\<close> has made it the
  \<^verbatim>\<open>fields\<close> object, the validation passes with no error entry.
\<close>

theorem C2_counterexample:
  "spec_empty (obj_get ''category''
      (deref (heap (run demo_config [EvEditRow 1 ''8''] w_loaded))
         (fields_st (st (run demo_config [EvEditRow 1 ''8''] w_loaded)))))
   \<and> errors (st (fst (handleValidation (run demo_config [EvEditRow 1 ''8''] w_loaded)))) = []
   \<and> snd (handleValidation (run demo_config [EvEditRow 1 ''8''] w_loaded))"
  by code_simp

text \<open>
  Claim C3, as the code has it. For a row of the collection whose category is null or a
  list of items, \<^verbatim>\<open>editRow\<close> returns, and \<^verbatim>\<open>cancelRow\<close> after it leaves the collection
  with the same row objects in the same order, every other object untouched, the in-edit
  flag of the id false, and no transport call, notification or timer. The edited row
  keeps all its properties but two: its \<^verbatim>\<open>category\<close> and \<^verbatim>\<open>campaign\<close> are now in the form
  of select options, and \<^verbatim>\<open>fields\<close> is this row object.
\<close>

theorem C3_edit_then_cancel:
  assumes idx: "index < length (results (st w))"
    and alloc: "wf_world w"
    and cats: "edit_categories (obj_get ''category'' (deref (heap w) (results (st w) ! index)))
                 = Some cats"
  shows "\<exists>w1. editRow index d w = Returned w1 \<and>
     (let w2 = cancelRow index d w1; a = results (st w) ! index
      in results (st w2) = results (st w)
       \<and> length (heap w2) = length (heap w)
       \<and> (\<forall>b. b \<noteq> a \<longrightarrow> deref (heap w2) b = deref (heap w) b)
       \<and> deref (heap w2) a =
           aset ''campaign'' (edit_campaign (obj_get ''campaign'' (deref (heap w) a)))
             (aset ''category'' (JArr cats) (deref (heap w) a))
       \<and> (\<forall>k. k \<noteq> ''category'' \<and> k \<noteq> ''campaign'' \<longrightarrow>
             obj_get k (deref (heap w2) a) = obj_get k (deref (heap w) a))
       \<and> fields_st (st w2) = a
       \<and> map_of (rows (st w2)) d = Some False
       \<and> pending w2 = pending w \<and> toasts w2 = toasts w \<and> timers w2 = timers w)"
proof -
  let ?a = "results (st w) ! index"
  from alloc idx have a: "?a < length (heap w)"
    by (simp add: wf_world_def list_all_length)
  let ?w1 = "w\<lparr>heap := (heap w)[?a :=
                 aset ''campaign'' (edit_campaign (obj_get ''campaign'' (deref (heap w) ?a)))
                   (aset ''category'' (JArr cats) (deref (heap w) ?a))],
              st := (st w)\<lparr>rows := aset d True (rows (st w)), fields_st := ?a\<rparr>\<rparr>"
  from idx cats have e: "editRow index d w = Returned ?w1"
    by (simp add: editRow_def Let_def)
  have "let w2 = cancelRow index d ?w1; a = ?a
      in results (st w2) = results (st w)
       \<and> length (heap w2) = length (heap w)
       \<and> (\<forall>b. b \<noteq> a \<longrightarrow> deref (heap w2) b = deref (heap w) b)
       \<and> deref (heap w2) a =
           aset ''campaign'' (edit_campaign (obj_get ''campaign'' (deref (heap w) a)))
             (aset ''category'' (JArr cats) (deref (heap w) a))
       \<and> (\<forall>k. k \<noteq> ''category'' \<and> k \<noteq> ''campaign'' \<longrightarrow>
             obj_get k (deref (heap w2) a) = obj_get k (deref (heap w) a))
       \<and> fields_st (st w2) = a
       \<and> map_of (rows (st w2)) d = Some False
       \<and> pending w2 = pending w \<and> toasts w2 = toasts w \<and> timers w2 = timers w"
    using a by (simp add: cancelRow_def Let_def deref_def obj_get_aset map_of_aset)
  with e show ?thesis by blast
qed

text \<open>The statement of C3 at the first row of the loaded view.\<close>

theorem C3_edit_then_cancel_witness:
  "(0::nat) < length (results (st w_loaded)) \<and> wf_world w_loaded
   \<and> edit_categories (obj_get ''category'' (deref (heap w_loaded) (results (st w_loaded) ! 0)))
       = Some [option_dict (JNum 1) (JStr ''Sports'')]
   \<and> results (st (cancelRow 0 ''7'' (world_of (editRow 0 ''7'' w_loaded)))) = results (st w_loaded)
   \<and> fields_st (st (cancelRow 0 ''7'' (world_of (editRow 0 ''7'' w_loaded)))) = 1
   \<and> map_of (rows (st (cancelRow 0 ''7'' (world_of (editRow 0 ''7'' w_loaded))))) ''7'' = Some False"
proof -
  have h1: "(0::nat) < length (results (st w_loaded))" by code_simp
  have h2: "wf_world w_loaded" by code_simp
  have h3: "edit_categories (obj_get ''category'' (deref (heap w_loaded) (results (st w_loaded) ! 0)))
       = Some [option_dict (JNum 1) (JStr ''Sports'')]" by code_simp
  have a: "results (st w_loaded) ! 0 = 1" by code_simp
  from C3_edit_then_cancel [OF h1 h2 h3, of "''7''"]
  obtain w1 where e: "editRow 0 ''7'' w_loaded = Returned w1"
    and r: "results (st (cancelRow 0 ''7'' w1)) = results (st w_loaded)"
    and f: "fields_st (st (cancelRow 0 ''7'' w1)) = results (st w_loaded) ! 0"
    and m: "map_of (rows (st (cancelRow 0 ''7'' w1))) ''7'' = Some False"
    by (auto simp: Let_def)
  from e r f m a h1 h2 h3 show ?thesis by simp
qed

text \<open>
  Claim C3 as it is written fails: after \<^verbatim>\<open>editRow\<close> and \<^verbatim>\<open>cancelRow\<close> on the first row,
  the rows of the collection and the \<^verbatim>\<open>fields\<close> object both differ from what they were.
\<close>

theorem C3_counterexample:
  "map (deref (heap (run demo_config [EvEditRow 0 ''7'', EvCancelRow 0 ''7''] w_loaded)))
       (results (st (run demo_config [EvEditRow 0 ''7'', EvCancelRow 0 ''7''] w_loaded)))
     \<noteq> map (deref (heap w_loaded)) (results (st w_loaded))
   \<and> deref (heap (run demo_config [EvEditRow 0 ''7'', EvCancelRow 0 ''7''] w_loaded))
       (fields_st (st (run demo_config [EvEditRow 0 ''7'', EvCancelRow 0 ''7''] w_loaded)))
     \<noteq> deref (heap w_loaded) (fields_st (st w_loaded))"
  by code_simp

text \<open>
  What \<^verbatim>\<open>submitRow\<close> and the response handler do. When the pending fields pass the
  validation and the category is a list of items none of which is null (in every state
  the view reaches, a category that passes the validation is a list), \<^verbatim>\<open>submitRow\<close>
  returns having made exactly one transport call, a PUT to
  \<^verbatim>\<open>GROUP_URL + fields.id + "/"\<close> whose body has the properties campaign, category, id and
  is_active, the campaign being whatever \<^verbatim>\<open>fields.campaign.value\<close> reads. When the
  response to that request arrives, the in-edit flag of the id in the response is false,
  exactly one GET of the collection is started, the collection is emptied for it, and
  one notification at the default level, success, is shown.
\<close>

lemma submitRow_put:
  assumes valid: "snd (handleValidation w)"
    and cat: "obj_get ''category'' (deref (heap w) (fields_st (st w))) = JArr items"
    and vals: "those (map (get_prop ''value'') items) = Some final_category"
  shows "\<exists>campaign_value.
     get_prop ''value'' (obj_get ''campaign'' (deref (heap w) (fields_st (st w))))
       = Some campaign_value \<and>
     (let fs = deref (heap w) (fields_st (st w));
          req = putRequest (GROUP_URL c @ to_str (obj_get ''id'' fs) @ ''/'')
                  (JsonStringify (JObj
                     [(''campaign'', campaign_value),
                      (''category'', JArr final_category),
                      (''id'', obj_get ''id'' fs),
                      (''is_active'', obj_get ''is_active'' fs)]))
                  CbGroupUpdateResponse ''PUT'' AuthHeaders
                  (ExtraObj [(''clean_results'', JBool True)]) ''submitRow''
      in submitRow c w = Returned (w\<lparr>pending := pending w @ [req], st := (st w)\<lparr>errors := []\<rparr>\<rparr>)
       \<and> meth req = ''PUT''
       \<and> (\<forall>w2 i b. i < length (pending w2) \<and> pending w2 ! i = req \<longrightarrow>
            (\<exists>w3. step c (EvResponse i (RObj b)) w2 = Some w3
              \<and> map_of (rows (st w3)) (to_str (obj_get ''id'' b)) = Some False
              \<and> pending w3 = remove_nth i (pending w2) @
                   [getRequest (GROUP_URL c) CbGetGroupsData AuthHeaders ''getGroups'']
              \<and> toasts w3 = toasts w2 @ [(JStr ''Group Updated successfully'', None)]
              \<and> level_of None = ''success''
              \<and> results (st w3) = [] \<and> loading (st w3))))"
proof -
  let ?fs = "deref (heap w) (fields_st (st w))"
  from valid have tc: "truthy (obj_get ''campaign'' ?fs)" and tk: "truthy (obj_get ''category'' ?fs)"
    by (simp_all add: handleValidation_def Let_def split: if_splits)
  then obtain cv where cv: "get_prop ''value'' (obj_get ''campaign'' ?fs) = Some cv"
    by (cases "obj_get ''campaign'' ?fs") simp_all
  have hv: "handleValidation w = (w\<lparr>st := (st w)\<lparr>errors := []\<rparr>\<rparr>, True)"
    using tc tk by (simp add: handleValidation_def Let_def)
  let ?req = "putRequest (GROUP_URL c @ to_str (obj_get ''id'' ?fs) @ ''/'')
                  (JsonStringify (JObj
                     [(''campaign'', cv),
                      (''category'', JArr final_category),
                      (''id'', obj_get ''id'' ?fs),
                      (''is_active'', obj_get ''is_active'' ?fs)]))
                  CbGroupUpdateResponse ''PUT'' AuthHeaders
                  (ExtraObj [(''clean_results'', JBool True)]) ''submitRow''"
  have sub: "submitRow c w = Returned (w\<lparr>pending := pending w @ [?req], st := (st w)\<lparr>errors := []\<rparr>\<rparr>)"
    using cat vals cv by (simp add: submitRow_def hv send_def Let_def)
  have m: "meth ?req = ''PUT''" by (simp add: putRequest_def)
  have resp: "\<forall>w2 i b. i < length (pending w2) \<and> pending w2 ! i = ?req \<longrightarrow>
            (\<exists>w3. step c (EvResponse i (RObj b)) w2 = Some w3
              \<and> map_of (rows (st w3)) (to_str (obj_get ''id'' b)) = Some False
              \<and> pending w3 = remove_nth i (pending w2) @
                   [getRequest (GROUP_URL c) CbGetGroupsData AuthHeaders ''getGroups'']
              \<and> toasts w3 = toasts w2 @ [(JStr ''Group Updated successfully'', None)]
              \<and> level_of None = ''success''
              \<and> results (st w3) = [] \<and> loading (st w3))"
    by (simp add: putRequest_def groupUpdateResponse_def getGroups_def send_def notify_def
        Let_def obj_get_def map_of_aset level_of_def)
  from cv sub m resp show ?thesis by (simp add: Let_def)
qed


text \<open>The first save of a row on concrete values: the PUT, then the response to it.\<close>

lemma submitRow_first_save:
  "map meth (pending w_submitted) = [''GET'', ''PUT'']
   \<and> map url (pending w_submitted) = [''/api/v1/categories-campaigns/'', ''/api/v1/groups/7/'']
   \<and> map body (pending w_submitted) =
        [NoBody,
         JsonStringify (JObj [(''campaign'', JNum 3), (''category'', JArr [JNum 1]),
                              (''id'', JNum 7), (''is_active'', JBool True)])]
   \<and> map url (pending (run demo_config [EvResponse 1 (RObj [(''id'', JNum 7)])] w_submitted)) =
        [''/api/v1/categories-campaigns/'', ''/api/v1/groups/'']
   \<and> rows (st (run demo_config [EvResponse 1 (RObj [(''id'', JNum 7)])] w_submitted)) =
        [(''7'', False)]"
  by code_simp

text \<open>
  Claim C4 at a concrete run, where the code fails it. The first row is edited, the edit
  is cancelled, the row is edited again and saved. The first \<^verbatim>\<open>editRow\<close> has rewritten
  the campaign of the row as \<^verbatim>\<open>{value, label, name}\<close>; the second reads
  \<^verbatim>\<open>fields['campaign'].id\<close> of it, which is undefined (for the category the code falls
  back on \<^verbatim>\<open>item.value\<close>, for the campaign it does not). The validation passes, one PUT
  goes to the URL of the row, and its body has an undefined campaign, which
  \<^verbatim>\<open>JSON.stringify\<close> leaves out: the field set that reaches the server is not full.
\<close>

theorem C4_reedit_drops_campaign:
  "snd (handleValidation w_reedited)
   \<and> map meth (pending (world_of (submitRow demo_config w_reedited))) = [''GET'', ''PUT'']
   \<and> map url (pending (world_of (submitRow demo_config w_reedited))) =
        [''/api/v1/categories-campaigns/'', ''/api/v1/groups/7/'']
   \<and> map body (pending (world_of (submitRow demo_config w_reedited))) =
        [NoBody,
         JsonStringify (JObj [(''campaign'', JUndefined), (''category'', JArr [JNum 1]),
                              (''id'', JNum 7), (''is_active'', JBool True)])]
   \<and> map serialised_keys (map body (pending (world_of (submitRow demo_config w_reedited)))) =
        [[], [''category'', ''id'', ''is_active'']]"
  by code_simp

text \<open>
  \<^verbatim>\<open>submitRow\<close> does not read the \<^verbatim>\<open>data-id\<close> of the Save button: with two rows in edit
  mode, Save on either row sends the row that was edited last.
\<close>

lemma submitRow_sends_last_edited_row:
  "map url (pending (world_of (submitRow demo_config w_two_edits))) =
     [''/api/v1/categories-campaigns/'', ''/api/v1/groups/8/'']
   \<and> rows (st w_two_edits) = [(''7'', True), (''8'', True)]"
  by code_simp

lemma index_of_split:
  "\<exists>x\<in>set xs. P x \<Longrightarrow>
   \<exists>pre r post. xs = pre @ r # post \<and> P r \<and> (\<forall>y\<in>set pre. \<not> P y) \<and>
     index_of P xs = int (length pre)"
proof (induction xs)
  case Nil
  then show ?case by simp
next
  case (Cons x xs)
  show ?case
  proof (cases "P x")
    case True
    then have "x # xs = [] @ x # xs \<and> P x \<and> (\<forall>y\<in>set []. \<not> P y) \<and>
      index_of P (x # xs) = int (length ([]::'a list))" by simp
    then show ?thesis by blast
  next
    case False
    with Cons.prems have "\<exists>y\<in>set xs. P y" by auto
    from Cons.IH [OF this] obtain pre r post where
      xs: "xs = pre @ r # post" and r: "P r" and pre: "\<forall>y\<in>set pre. \<not> P y"
      and i: "index_of P xs = int (length pre)" by blast
    from False xs r pre i have "x # xs = (x # pre) @ r # post \<and> P r \<and>
      (\<forall>y\<in>set (x # pre). \<not> P y) \<and> index_of P (x # xs) = int (length (x # pre))"
      by (simp add: Let_def)
    then show ?thesis by blast
  qed
qed

lemma deliver_delete:
  "deliver c CbDeleteGroupResponse (ExtraElem f) (RObj b) w =
     Some (w\<lparr>timers := timers w @ [(1000, TmFadeRow f)],
             toasts := toasts w @ [(obj_get ''Msg'' b, None)],
             reloads := reloads w + 1\<rparr>)"
  by (simp add: deleteGroupResponse_def setTimeout_def notify_def Let_def)

lemma table_deleteRow_at: "table_deleteRow (int (length pre)) (pre @ r # post) = pre @ post"
  by (simp add: table_deleteRow_def)

text \<open>
  Claim C5. For an id whose row is in the table, \<^verbatim>\<open>deleteRow\<close> makes exactly one
  transport call, a DELETE to \<^verbatim>\<open>GROUP_URL + id + "/"\<close>, and changes nothing else: there
  is no confirmation step. When the response to that request arrives, the handler sets
  the 1000 ms timer that fades the row, shows the message of the response and reloads
  the page, and leaves the state of the view as it is. The timer, when it fires with the
  row still in the table, deletes exactly this one row from the table.
\<close>

theorem C5_deleteRow:
  assumes shown: "Some d \<in> snd ` set (table w)"
  shows "\<exists>h. querySelector_data_row d w = Some h \<and> (h, Some d) \<in> set (table w) \<and>
     (let req = deleteRequest (GROUP_URL c @ d @ ''/'') CbDeleteGroupResponse AuthHeaders
                  (ExtraElem (Some h)) ''deleteRow''
      in deleteRow c d w = w\<lparr>pending := pending w @ [req]\<rparr>
       \<and> meth req = ''DELETE''
       \<and> url req = GROUP_URL c @ d @ ''/''
       \<and> sublist d (url req)
       \<and> (\<forall>w2 i b. i < length (pending w2) \<and> pending w2 ! i = req \<longrightarrow>
            step c (EvResponse i (RObj b)) w2 =
              Some (w2\<lparr>pending := remove_nth i (pending w2),
                       timers := timers w2 @ [(1000, TmFadeRow (Some h))],
                       toasts := toasts w2 @ [(obj_get ''Msg'' b, None)],
                       reloads := reloads w2 + 1\<rparr>))
       \<and> (\<forall>w3. h \<in> fst ` set (table w3) \<longrightarrow>
            (\<exists>pre r post. table w3 = pre @ r # post \<and> fst r = h \<and> h \<notin> fst ` set pre \<and>
               fire_timer c (TmFadeRow (Some h)) w3 = Returned (w3\<lparr>table := pre @ post\<rparr>))))"
proof -
  from shown obtain r0 where "r0 \<in> set (table w)" and "snd r0 = Some d" by force
  then have "find (\<lambda>r. snd r = Some d) (table w) \<noteq> None"
    unfolding find_None_iff by blast
  then obtain r where f: "find (\<lambda>r. snd r = Some d) (table w) = Some r" by blast
  then have rin: "r \<in> set (table w)" and rd: "snd r = Some d"
    by (auto simp: find_Some_iff)
  obtain h where h: "h = fst r" by simp
  from f h have q: "querySelector_data_row d w = Some h"
    by (simp add: querySelector_data_row_def)
  have "r = (h, Some d)"
    by (simp add: h prod_eq_iff rd)
  with rin have mem: "(h, Some d) \<in> set (table w)" by simp
  let ?req = "deleteRequest (GROUP_URL c @ d @ ''/'') CbDeleteGroupResponse AuthHeaders
                  (ExtraElem (Some h)) ''deleteRow''"
  have del: "deleteRow c d w = w\<lparr>pending := pending w @ [?req]\<rparr>"
    by (simp add: deleteRow_def q send_def)
  have m: "meth ?req = ''DELETE''" and u: "url ?req = GROUP_URL c @ d @ ''/''"
    by (simp_all add: deleteRequest_def)
  have sub: "sublist d (url ?req)"
    unfolding u by (rule sublist_appendI)
  have resp: "\<forall>w2 i b. i < length (pending w2) \<and> pending w2 ! i = ?req \<longrightarrow>
            step c (EvResponse i (RObj b)) w2 =
              Some (w2\<lparr>pending := remove_nth i (pending w2),
                       timers := timers w2 @ [(1000, TmFadeRow (Some h))],
                       toasts := toasts w2 @ [(obj_get ''Msg'' b, None)],
                       reloads := reloads w2 + 1\<rparr>)"
    by (simp add: deleteRequest_def deliver_delete del: deliver.simps)
  have fire: "\<forall>w3. h \<in> fst ` set (table w3) \<longrightarrow>
            (\<exists>pre r post. table w3 = pre @ r # post \<and> fst r = h \<and> h \<notin> fst ` set pre \<and>
               fire_timer c (TmFadeRow (Some h)) w3 = Returned (w3\<lparr>table := pre @ post\<rparr>))"
  proof (intro allI impI)
    fix w3 :: group_world
    assume "h \<in> fst ` set (table w3)"
    then obtain x where "x \<in> set (table w3)" and "fst x = h" by (auto simp: image_iff)
    then have "\<exists>x\<in>set (table w3). fst x = h" by blast
    from index_of_split [of "table w3" "\<lambda>x. fst x = h", OF this]
    obtain pre r' post where t: "table w3 = pre @ r' # post" and r': "fst r' = h"
      and pre: "\<forall>y\<in>set pre. fst y \<noteq> h"
      and i: "index_of (\<lambda>x. fst x = h) (table w3) = int (length pre)" by blast
    from pre have npre: "h \<notin> fst ` set pre" by (auto simp: image_iff)
    have "fire_timer c (TmFadeRow (Some h)) w3 = Returned (w3\<lparr>table := pre @ post\<rparr>)"
      using i t by (simp add: rowIndex_def table_deleteRow_at)
    with t r' npre
    show "\<exists>pre r post. table w3 = pre @ r # post \<and> fst r = h \<and> h \<notin> fst ` set pre \<and>
               fire_timer c (TmFadeRow (Some h)) w3 = Returned (w3\<lparr>table := pre @ post\<rparr>)"
      by blast
  qed
  show ?thesis
    unfolding Let_def
  proof (intro exI conjI)
    show "querySelector_data_row d w = Some h" by (rule q)
    show "(h, Some d) \<in> set (table w)" by (rule mem)
    show "deleteRow c d w = w\<lparr>pending := pending w @ [?req]\<rparr>" by (rule del)
    show "meth ?req = ''DELETE''" by (rule m)
    show "url ?req = GROUP_URL c @ d @ ''/''" by (rule u)
    show "sublist d (url ?req)" by (rule sub)
    show "\<forall>w2 i b. i < length (pending w2) \<and> pending w2 ! i = ?req \<longrightarrow>
            step c (EvResponse i (RObj b)) w2 =
              Some (w2\<lparr>pending := remove_nth i (pending w2),
                       timers := timers w2 @ [(1000, TmFadeRow (Some h))],
                       toasts := toasts w2 @ [(obj_get ''Msg'' b, None)],
                       reloads := reloads w2 + 1\<rparr>)" by (rule resp)
    show "\<forall>w3. h \<in> fst ` set (table w3) \<longrightarrow>
            (\<exists>pre r post. table w3 = pre @ r # post \<and> fst r = h \<and> h \<notin> fst ` set pre \<and>
               fire_timer c (TmFadeRow (Some h)) w3 = Returned (w3\<lparr>table := pre @ post\<rparr>))"
      by (rule fire)
  qed
qed

text \<open>The statement of C5 at the loaded view with its table rendered, for the row of id 7.\<close>

theorem C5_deleteRow_witness:
  "Some ''7'' \<in> snd ` set (table w_table)
   \<and> querySelector_data_row ''7'' w_table = Some 1
   \<and> map url (pending (deleteRow demo_config ''7'' w_table)) =
        [''/api/v1/categories-campaigns/'', ''/api/v1/groups/7/'']
   \<and> table (world_of (fire_timer demo_config (TmFadeRow (Some 1)) w_table)) =
        [(0, None), (2, Some ''8'')]"
proof -
  have t: "table w_table = [(0, None), (1, Some ''7''), (2, Some ''8'')]" by code_simp
  have h: "Some ''7'' \<in> snd ` set (table w_table)" by (simp add: t)
  have q: "querySelector_data_row ''7'' w_table = Some 1"
    by (simp add: querySelector_data_row_def t)
  have p: "map url (pending w_table) = [''/api/v1/categories-campaigns/'']" by code_simp
  have g: "GROUP_URL demo_config = ''/api/v1/groups/''" by (simp add: demo_config_def)
  from C5_deleteRow [OF h, of demo_config]
  have "\<exists>h'. querySelector_data_row ''7'' w_table = Some h' \<and>
      deleteRow demo_config ''7'' w_table =
      w_table\<lparr>pending := pending w_table @
        [deleteRequest (GROUP_URL demo_config @ ''7'' @ ''/'') CbDeleteGroupResponse AuthHeaders
           (ExtraElem (Some h')) ''deleteRow'']\<rparr>"
    unfolding Let_def by (elim exE conjE) (intro exI conjI, assumption+)
  then obtain h' where q': "querySelector_data_row ''7'' w_table = Some h'"
    and d': "deleteRow demo_config ''7'' w_table =
      w_table\<lparr>pending := pending w_table @
        [deleteRequest (GROUP_URL demo_config @ ''7'' @ ''/'') CbDeleteGroupResponse AuthHeaders
           (ExtraElem (Some h')) ''deleteRow'']\<rparr>"
    by (elim exE conjE)
  from q q' have "h' = 1" by simp
  with d' have d: "deleteRow demo_config ''7'' w_table =
      w_table\<lparr>pending := pending w_table @
        [deleteRequest (GROUP_URL demo_config @ ''7'' @ ''/'') CbDeleteGroupResponse AuthHeaders
           (ExtraElem (Some 1)) ''deleteRow'']\<rparr>"
    by simp
  from d p g have u: "map url (pending (deleteRow demo_config ''7'' w_table)) =
        [''/api/v1/categories-campaigns/'', ''/api/v1/groups/7/'']"
    by (simp add: deleteRequest_def)
  have tb: "table (world_of (fire_timer demo_config (TmFadeRow (Some 1)) w_table)) =
        [(0, None), (2, Some ''8'')]"
    by (simp add: t rowIndex_def table_deleteRow_def)
  from h q u tb show ?thesis by blast
qed

text \<open>A row of the collection with an id has its row in the rendered table.\<close>

lemma rendered_row_present:
  assumes "i < length (results (st w))"
    and "data_row_attr (obj_get ''id'' (deref (heap w) (results (st w) ! i))) = Some d"
  shows "Some d \<in> snd ` set (rendered_table w)"
proof -
  from assms have "(Suc i, Some d) \<in> set (rendered_table w)"
    by (force simp: rendered_table_def)
  then show ?thesis by force
qed

lemma results_handleValidation: "results (st (fst (handleValidation w))) = results (st w)"
  by (simp add: handleValidation_def Let_def)

lemma results_set_field: "results (st (set_field k v w)) = results (st w)"
  by (simp add: set_field_def)

lemma results_change_fields:
  "results (st (world_of (change_fields field e is_editable w))) = results (st w)"
  by (simp add: results_set_field split: change_arg.splits)

lemma results_handleChange:
  "results (st (world_of (handleChange field e is_editable w))) = results (st w)"
proof (cases "change_fields field e is_editable w")
  case (Returned w1)
  with results_change_fields [of field e is_editable w] show ?thesis
    by (simp add: handleChange_def results_handleValidation)
next
  case (Threw err w1)
  with results_change_fields [of field e is_editable w] show ?thesis
    by (simp add: handleChange_def)
qed

lemma results_groupSubmit: "results (st (groupSubmit c w)) = results (st w)"
  by (simp add: groupSubmit_def handleValidation_def Let_def send_def)

lemma results_submitRow: "results (st (world_of (submitRow c w))) = results (st w)"
  by (simp add: submitRow_def handleValidation_def Let_def send_def
           split: jsval.splits option.splits)

lemma results_editRow: "results (st (world_of (editRow i d w))) = results (st w)"
  by (simp add: editRow_def Let_def split: option.splits)

lemma results_handleScroll: "results (st (handleScroll a b h w)) = results (st w)"
  by (simp add: handleScroll_def getNext_def send_def)

lemma results_isSideBarToogle: "results (st (isSideBarToogle d w)) = results (st w)"
  by (simp add: isSideBarToogle_def cookies_set_def cookies_remove_def)

lemma results_toggleSwitch: "results (st (toggleSwitch d w)) = results (st w)"
  by (simp add: toggleSwitch_def cookies_set_def cookies_remove_def dark_style_on_def
        dark_style_off_def Let_def split: option.splits)

lemma results_componentDidMount: "results (st (componentDidMount c w)) = results (st w)"
  by (simp add: componentDidMount_def getGroups_def send_def getTheme_def dark_style_on_def
        dark_style_off_def Let_def split: option.splits)

lemma results_getCampaignCategories:
  "results (st (world_of (getCampaignCategories b w))) = results (st w)"
  by (simp add: getCampaignCategories_def split: option.splits)

lemma prefix_getGroupsData: "prefix (results (st w)) (results (st (getGroupsData b w)))"
  by (cases b) simp_all

lemma results_groupSubmitResponse: "results (st (groupSubmitResponse b x w)) = results (st w)"
  by (simp add: groupSubmitResponse_def setTimeout_def Let_def)

lemma results_groupUpdateResponse:
  "results (st (groupUpdateResponse c b x w)) =
     (if truthy (obj_get ''clean_results'' x) then [] else results (st w))"
  by (simp add: groupUpdateResponse_def getGroups_def send_def notify_def Let_def)

lemma results_deleteGroupResponse: "results (st (deleteGroupResponse b f w)) = results (st w)"
  by (simp add: deleteGroupResponse_def setTimeout_def notify_def Let_def)

lemma results_deliver:
  "deliver c cb x r w = Some w1 \<Longrightarrow>
   (if cb = CbGroupUpdateResponse \<and> clean_results x \<and> is_obj_response r
    then results (st w1) = []
    else prefix (results (st w)) (results (st w1)))"
proof (induction c cb x r w rule: deliver.induct)
  case (1 c x b w)
  then show ?case using prefix_getGroupsData [of w b] by auto
next
  case (2 c x b w)
  then show ?case using results_getCampaignCategories [of b w] by auto
next
  case (3 c x b w)
  then show ?case using results_groupSubmitResponse [of b x w] by auto
next
  case (4 c x b w)
  then show ?case using results_groupUpdateResponse [of c b x w] by auto
next
  case (5 c f b w)
  then show ?case using results_deleteGroupResponse [of b f w] by auto
qed simp_all

lemma results_fire_timer:
  "results (st (world_of (fire_timer c t w))) =
     (if t = TmCloseModalClean then [] else results (st w))"
  by (induction c t w rule: fire_timer.induct) (simp_all add: getGroups_def send_def)

lemma keep_set_field:
  "reloads (set_field k v w) = reloads w \<and> table (set_field k v w) = table w"
  by (simp add: set_field_def)

lemma keep_change_fields:
  "reloads (world_of (change_fields field e is_editable w)) = reloads w
   \<and> table (world_of (change_fields field e is_editable w)) = table w"
  by (simp add: keep_set_field split: change_arg.splits)

lemma keep_handleValidation:
  "reloads (fst (handleValidation w)) = reloads w \<and> table (fst (handleValidation w)) = table w"
  by (simp add: handleValidation_def Let_def)

lemma keep_handleChange:
  "reloads (world_of (handleChange field e is_editable w)) = reloads w
   \<and> table (world_of (handleChange field e is_editable w)) = table w"
proof (cases "change_fields field e is_editable w")
  case (Returned w1)
  with keep_change_fields [of field e is_editable w] show ?thesis
    by (simp add: handleChange_def keep_handleValidation)
next
  case (Threw err w1)
  with keep_change_fields [of field e is_editable w] show ?thesis
    by (simp add: handleChange_def)
qed

lemma keep_submitRow:
  "reloads (world_of (submitRow c w)) = reloads w \<and> table (world_of (submitRow c w)) = table w"
  by (simp add: submitRow_def handleValidation_def Let_def send_def
        split: jsval.splits option.splits)

lemma keep_editRow:
  "reloads (world_of (editRow i d w)) = reloads w \<and> table (world_of (editRow i d w)) = table w"
  by (simp add: editRow_def Let_def split: option.splits)

lemma keep_handleQueryChange:
  "reloads (handleQueryChange v w) = reloads w \<and> table (handleQueryChange v w) = table w"
  by (simp add: handleQueryChange_def)

lemma keep_handleKeyPress:
  "reloads (handleKeyPress c k w) = reloads w \<and> table (handleKeyPress c k w) = table w"
  by (simp add: handleKeyPress_def send_def)

lemma keep_groupSubmit:
  "reloads (groupSubmit c w) = reloads w \<and> table (groupSubmit c w) = table w"
  by (simp add: groupSubmit_def handleValidation_def send_def Let_def)

lemma keep_toggle: "reloads (toggle w) = reloads w \<and> table (toggle w) = table w"
  by (simp add: toggle_def)

lemma keep_cancelRow:
  "reloads (cancelRow i d w) = reloads w \<and> table (cancelRow i d w) = table w"
  by (simp add: cancelRow_def)

lemma keep_deleteRow:
  "reloads (deleteRow c d w) = reloads w \<and> table (deleteRow c d w) = table w"
  by (simp add: deleteRow_def send_def Let_def)

lemma keep_handleScroll:
  "reloads (handleScroll a b h w) = reloads w \<and> table (handleScroll a b h w) = table w"
  by (simp add: handleScroll_def getNext_def send_def)

lemma keep_isSideBarToogle:
  "reloads (isSideBarToogle d w) = reloads w \<and> table (isSideBarToogle d w) = table w"
  by (simp add: isSideBarToogle_def cookies_set_def cookies_remove_def)

lemma keep_toggleSwitch:
  "reloads (toggleSwitch d w) = reloads w \<and> table (toggleSwitch d w) = table w"
  by (simp add: toggleSwitch_def cookies_set_def cookies_remove_def dark_style_on_def
        dark_style_off_def Let_def split: option.splits)

lemma keep_componentDidMount:
  "reloads (componentDidMount c w) = reloads w \<and> table (componentDidMount c w) = table w"
  by (simp add: componentDidMount_def getGroups_def send_def getTheme_def dark_style_on_def
        dark_style_off_def Let_def split: option.splits)

lemma keep_deliver:
  "deliver c cb x r w = Some w1 \<Longrightarrow>
   table w1 = table w \<and>
   reloads w1 = (if cb = CbDeleteGroupResponse \<and> is_elem_extra x \<and> is_obj_response r
                 then Suc (reloads w) else reloads w)"
proof (induction c cb x r w rule: deliver.induct)
  case (1 c x b w)
  then show ?case by (cases b) auto
next
  case (2 c x b w)
  then show ?case by (auto simp: getCampaignCategories_def split: option.splits)
next
  case (3 c x b w)
  then show ?case by (auto simp: groupSubmitResponse_def setTimeout_def Let_def)
next
  case (4 c x b w)
  then show ?case
    by (auto simp: groupUpdateResponse_def getGroups_def send_def notify_def Let_def)
next
  case (5 c f b w)
  then show ?case by (auto simp: deleteGroupResponse_def setTimeout_def notify_def Let_def)
qed simp_all

lemma keep_fire_timer:
  "reloads (world_of (fire_timer c t w)) = reloads w
   \<and> (\<not> is_fade t \<longrightarrow> table (world_of (fire_timer c t w)) = table w)"
  by (induction c t w rule: fire_timer.induct) (simp_all add: getGroups_def send_def)

lemma refetch_deliver:
  "deliver c CbGroupUpdateResponse x (RObj b) w = Some w1 \<Longrightarrow> clean_results x \<Longrightarrow>
   pending w1 = pending w @ [getRequest (GROUP_URL c) CbGetGroupsData AuthHeaders ''getGroups'']"
  by (cases x) (auto simp: groupUpdateResponse_def getGroups_def send_def notify_def Let_def)

text \<open>
  Claim C6, as the code has it. Four kinds of event reset the collection. A submitted
  search, the end of a successful create and the response to a successful update empty
  the collection and start one GET of its first page. The response to a successful
  delete reloads the whole page, which starts the view over with an empty collection and
  a GET of the first page; the timer of that response takes the one row out of the
  table. Under every other event of the view, completed fetches among them, the rows of
  the collection stay where they are, in their order (the collection before is an
  initial part of the collection after), the page is not reloaded, and no row leaves the
  table.
\<close>

theorem C6_append_only:
  assumes "step c e w = Some w1"
  shows "(clears_collection e w \<longrightarrow>
            results (st w1) = [] \<and> pending w1 = still_pending e w @ [refetch c e w])
       \<and> (reloads_page e w \<longrightarrow> reloads w1 = Suc (reloads w))
       \<and> results (st (componentDidMount c (Group_constructor c))) = []
       \<and> pending (componentDidMount c (Group_constructor c)) =
            [getRequest (GROUP_URL c) CbGetGroupsData AuthHeaders ''getGroups'',
             getRequest (CATEGORIES_CAMPAIGN_URL c) CbGetCampaignCategories AuthHeaders
               ''componentDidMount'']
       \<and> (\<not> clears_collection e w \<longrightarrow> prefix (results (st w)) (results (st w1)))
       \<and> (\<not> reloads_page e w \<longrightarrow> reloads w1 = reloads w)
       \<and> (\<not> fades_row e w \<longrightarrow> table w1 = table w)"
proof -
  have mount: "results (st (componentDidMount c (Group_constructor c))) = []
       \<and> pending (componentDidMount c (Group_constructor c)) =
            [getRequest (GROUP_URL c) CbGetGroupsData AuthHeaders ''getGroups'',
             getRequest (CATEGORIES_CAMPAIGN_URL c) CbGetCampaignCategories AuthHeaders
               ''componentDidMount'']"
    by (simp add: componentDidMount_def Group_constructor_def getGroups_def send_def
          getTheme_def cookies_get_def obj_get_def dark_style_off_def Let_def)
  have main: "(clears_collection e w \<longrightarrow>
            results (st w1) = [] \<and> pending w1 = still_pending e w @ [refetch c e w])
       \<and> (reloads_page e w \<longrightarrow> reloads w1 = Suc (reloads w))
       \<and> (\<not> clears_collection e w \<longrightarrow> prefix (results (st w)) (results (st w1)))
       \<and> (\<not> reloads_page e w \<longrightarrow> reloads w1 = reloads w)
       \<and> (\<not> fades_row e w \<longrightarrow> table w1 = table w)"
  proof (cases e)
    case (EvQueryChange v)
    with assms have w1: "w1 = handleQueryChange v w" by simp
    show ?thesis unfolding w1 EvQueryChange by (simp add: handleQueryChange_def)
  next
    case (EvKeyPress k)
    with assms have w1: "w1 = handleKeyPress c k w" by simp
    show ?thesis unfolding w1 EvKeyPress by (simp add: handleKeyPress_def send_def)
  next
    case (EvChange field a b)
    with assms have w1: "w1 = world_of (handleChange field a b w)" by simp
    from results_handleChange [of field a b w] keep_handleChange [of field a b w]
    show ?thesis unfolding w1 EvChange by simp
  next
    case EvGroupSubmit
    with assms have w1: "w1 = groupSubmit c w" by simp
    from results_groupSubmit [of c w] keep_groupSubmit [of c w]
    show ?thesis unfolding w1 EvGroupSubmit by simp
  next
    case EvToggle
    with assms have w1: "w1 = toggle w" by simp
    show ?thesis unfolding w1 EvToggle by (simp add: toggle_def)
  next
    case EvSubmitRow
    with assms have w1: "w1 = world_of (submitRow c w)" by simp
    from results_submitRow [of c w] keep_submitRow [of c w]
    show ?thesis unfolding w1 EvSubmitRow by simp
  next
    case (EvEditRow i d)
    with assms have w1: "w1 = world_of (editRow i d w)" by simp
    from results_editRow [of i d w] keep_editRow [of i d w]
    show ?thesis unfolding w1 EvEditRow by simp
  next
    case (EvCancelRow i d)
    with assms have w1: "w1 = cancelRow i d w" by simp
    show ?thesis unfolding w1 EvCancelRow by (simp add: cancelRow_def)
  next
    case (EvDeleteRow d)
    with assms have w1: "w1 = deleteRow c d w" by simp
    show ?thesis unfolding w1 EvDeleteRow by (simp add: deleteRow_def send_def Let_def)
  next
    case (EvScroll a b h)
    with assms have w1: "w1 = handleScroll a b h w" by simp
    from results_handleScroll [of a b h w] keep_handleScroll [of a b h w]
    show ?thesis unfolding w1 EvScroll by simp
  next
    case (EvSideBar d)
    with assms have w1: "w1 = isSideBarToogle d w" by simp
    from results_isSideBarToogle [of d w] keep_isSideBarToogle [of d w]
    show ?thesis unfolding w1 EvSideBar by simp
  next
    case (EvToggleSwitch d)
    with assms have w1: "w1 = toggleSwitch d w" by simp
    from results_toggleSwitch [of d w] keep_toggleSwitch [of d w]
    show ?thesis unfolding w1 EvToggleSwitch by simp
  next
    case EvMount
    with assms have w1: "w1 = componentDidMount c w" by simp
    from results_componentDidMount [of c w] keep_componentDidMount [of c w]
    show ?thesis unfolding w1 EvMount by simp
  next
    case (EvResponse i r)
    let ?w = "w\<lparr>pending := remove_nth i (pending w)\<rparr>"
    from EvResponse assms have i: "i < length (pending w)"
      and d: "deliver c (callback (pending w ! i)) (extra_data (pending w ! i)) r ?w = Some w1"
      by (simp_all split: if_splits)
    from results_deliver [OF d] i
    have 1: "(clears_collection (EvResponse i r) w \<longrightarrow> results (st w1) = [])
           \<and> (\<not> clears_collection (EvResponse i r) w \<longrightarrow>
                 prefix (results (st w)) (results (st w1)))"
      by (simp split: if_splits)
    from keep_deliver [OF d] i
    have 2: "table w1 = table w
           \<and> (reloads_page (EvResponse i r) w \<longrightarrow> reloads w1 = Suc (reloads w))
           \<and> (\<not> reloads_page (EvResponse i r) w \<longrightarrow> reloads w1 = reloads w)"
      by (simp split: if_splits)
    have 3: "clears_collection (EvResponse i r) w \<longrightarrow>
               pending w1 = still_pending (EvResponse i r) w @ [refetch c (EvResponse i r) w]"
    proof
      assume cl: "clears_collection (EvResponse i r) w"
      then obtain b where r: "r = RObj b" by (cases r) simp_all
      from cl have cb: "callback (pending w ! i) = CbGroupUpdateResponse"
        and cr: "clean_results (extra_data (pending w ! i))" by simp_all
      from d cb r
      have "deliver c CbGroupUpdateResponse (extra_data (pending w ! i)) (RObj b) ?w = Some w1"
        by simp
      from refetch_deliver [OF this cr]
      show "pending w1 = still_pending (EvResponse i r) w @ [refetch c (EvResponse i r) w]"
        by simp
    qed
    have 4: "\<not> fades_row (EvResponse i r) w" by simp
    from 1 2 3 4 show ?thesis unfolding EvResponse by blast
  next
    case (EvTimer i)
    let ?w = "w\<lparr>timers := remove_nth i (timers w)\<rparr>"
    from EvTimer assms have i: "i < length (timers w)"
      and w1: "w1 = world_of (fire_timer c (snd (timers w ! i)) ?w)"
      by (simp_all split: if_splits)
    from results_fire_timer [of c "snd (timers w ! i)" ?w] i
    have 1: "(clears_collection (EvTimer i) w \<longrightarrow> results (st w1) = [])
           \<and> (\<not> clears_collection (EvTimer i) w \<longrightarrow>
                 prefix (results (st w)) (results (st w1)))"
      unfolding w1 by (simp split: if_splits)
    from keep_fire_timer [of c "snd (timers w ! i)" ?w] i
    have 2: "reloads w1 = reloads w \<and> (\<not> fades_row (EvTimer i) w \<longrightarrow> table w1 = table w)"
      unfolding w1 by simp
    have 3: "clears_collection (EvTimer i) w \<longrightarrow>
               pending w1 = still_pending (EvTimer i) w @ [refetch c (EvTimer i) w]"
      unfolding w1 using i by (simp add: getGroups_def send_def)
    have 4: "\<not> reloads_page (EvTimer i) w" by simp
    from 1 2 3 4 show ?thesis unfolding EvTimer by simp
  qed
  from main mount show ?thesis by blast
qed

text \<open>
  The statement of C6 at the loaded view: a page that arrives for a scroll is appended, a
  submitted search clears the collection and fetches the first page of the search, and
  the response to a delete reloads the page.
\<close>

theorem C6_append_only_witness:
  "step demo_config (EvResponse 1 (RPage (PageBody [row_bare] JNull JNull)))
     (handleScroll 0 0 0 w_loaded) \<noteq> None
   \<and> \<not> clears_collection (EvResponse 1 (RPage (PageBody [row_bare] JNull JNull)))
         (handleScroll 0 0 0 w_loaded)
   \<and> results (st (handleScroll 0 0 0 w_loaded)) = [1, 2]
   \<and> prefix [1, 2]
        (results (st (run demo_config [EvResponse 1 (RPage (PageBody [row_bare] JNull JNull))]
           (handleScroll 0 0 0 w_loaded))))
   \<and> clears_collection (EvKeyPress ''Enter'') w_loaded
   \<and> results (st (run demo_config [EvKeyPress ''Enter''] w_loaded)) = []
   \<and> map url (pending (run demo_config [EvKeyPress ''Enter''] w_loaded)) =
        [''/api/v1/categories-campaigns/'', ''/api/v1/groups/?q='']
   \<and> reloads_page (EvResponse 1 (RObj [(''Msg'', JStr ''Deleted'')]))
        (deleteRow demo_config ''7'' w_table)
   \<and> reloads (run demo_config [EvResponse 1 (RObj [(''Msg'', JStr ''Deleted'')])]
        (deleteRow demo_config ''7'' w_table)) = 1"
proof -
  let ?w = "handleScroll 0 0 0 w_loaded"
  let ?e = "EvResponse 1 (RPage (PageBody [row_bare] JNull JNull))"
  let ?d = "EvResponse 1 (RObj [(''Msg'', JStr ''Deleted'')])"
  let ?wd = "deleteRow demo_config ''7'' w_table"
  have s: "step demo_config ?e ?w = Some (run demo_config [?e] ?w)" by code_simp
  have nc: "\<not> clears_collection ?e ?w" by code_simp
  have r: "results (st ?w) = [1, 2]" by code_simp
  from C6_append_only [OF s] nc
  have "prefix (results (st ?w)) (results (st (run demo_config [?e] ?w)))" by blast
  with r have p: "prefix [1, 2] (results (st (run demo_config [?e] ?w)))" by simp
  have s2: "step demo_config (EvKeyPress ''Enter'') w_loaded =
              Some (run demo_config [EvKeyPress ''Enter''] w_loaded)" by simp
  have cl: "clears_collection (EvKeyPress ''Enter'') w_loaded" by simp
  from C6_append_only [OF s2] cl
  have e: "results (st (run demo_config [EvKeyPress ''Enter''] w_loaded)) = []"
    and q: "pending (run demo_config [EvKeyPress ''Enter''] w_loaded) =
      still_pending (EvKeyPress ''Enter'') w_loaded @
      [refetch demo_config (EvKeyPress ''Enter'') w_loaded]"
    by blast+
  have pl: "map url (pending w_loaded) = [''/api/v1/categories-campaigns/'']"
    and ql: "q (st w_loaded) = []" by code_simp+
  from q pl ql have u: "map url (pending (run demo_config [EvKeyPress ''Enter''] w_loaded)) =
        [''/api/v1/categories-campaigns/'', ''/api/v1/groups/?q='']"
    by (simp add: getRequest_def demo_config_def)
  have s3: "step demo_config ?d ?wd = Some (run demo_config [?d] ?wd)" by code_simp
  have rp: "reloads_page ?d ?wd" by code_simp
  have r0: "reloads ?wd = 0" by code_simp
  from C6_append_only [OF s3] rp
  have "reloads (run demo_config [?d] ?wd) = Suc (reloads ?wd)" by blast
  with r0 have rl: "reloads (run demo_config [?d] ?wd) = 1" by simp
  have ne: "step demo_config ?e ?w \<noteq> None" unfolding s by (rule option.distinct)
  from ne nc r p cl e u rp rl show ?thesis by blast
qed

text \<open>
  Claim C6 as it is written fails: the response to a successful update is neither a
  search nor a create, and it empties the collection of two rows.
\<close>

theorem C6_counterexample:
  "\<not> claimed_reset (EvResponse 1 (RObj [(''id'', JNum 7)])) w_submitted
   \<and> results (st w_submitted) = [1, 2]
   \<and> map callback (pending w_submitted) = [CbGetCampaignCategories, CbGroupUpdateResponse]
   \<and> results (st (run demo_config [EvResponse 1 (RObj [(''id'', JNum 7)])] w_submitted)) = []"
  by code_simp

section \<open>Properties of the Bookmark view\<close>

lemma index_of_none: "\<forall>x\<in>set xs. \<not> P x \<Longrightarrow> index_of P xs = - 1"
  by (induction xs) simp_all

lemma splice1_last: "splice1 (- 1) xs = butlast xs"
proof (cases xs rule: rev_cases)
  case Nil
  then show ?thesis by (simp add: splice1_def)
next
  case (snoc ys y)
  then show ?thesis by (simp add: splice1_def Let_def)
qed

lemma collect_articles_ids:
  "list_all (\<lambda>p. fst p < n) news \<Longrightarrow>
   collect_articles c items (news, arts, n) = Returned (news1, arts1, n1) \<Longrightarrow>
   list_all (\<lambda>p. fst p < n1) news1"
proof (induction items arbitrary: news arts n)
  case Nil
  then show ?case by simp
next
  case (Cons item items)
  show ?case
  proof (cases "obj_get ''article'' item")
    case (JObj art)
    show ?thesis
    proof (cases "truthy (obj_get ''cover_image'' art)")
      case True
      with Cons.prems(2) JObj obtain src where
        d: "decodeURIComponent c (to_str (obj_get ''cover_image'' art)) = Some src"
        and r: "collect_articles c items
                  (news @ [(n, article_dict c art src)], arts @ [JObj art], Suc n)
                = Returned (news1, arts1, n1)"
        by (auto split: option.splits)
      from Cons.prems(1) have "list_all (\<lambda>p. fst p < Suc n) (news @ [(n, article_dict c art src)])"
        by (auto simp: list_all_iff)
      from Cons.IH [OF this r] show ?thesis .
    next
      case False
      with Cons.prems JObj Cons.IH [of n news arts] show ?thesis by simp
    qed
  qed (use Cons.prems Cons.IH [of n news arts] in simp_all)
qed

text \<open>After every fetch of the bookmarks that returns, the cards carry identities given out.\<close>

lemma ids_given_getBookmarksArticles:
  assumes "getBookmarksArticles c p w = Returned w1"
  shows "ids_given w1"
proof (cases "collect_articles c p ([], article_array w, next_oid w)")
  case (Threw err acc)
  with assms show ?thesis by (cases acc) (simp add: getBookmarksArticles_def)
next
  case (Returned acc)
  obtain news1 arts1 n1 where acc: "acc = (news1, arts1, n1)" by (cases acc)
  with Returned have "list_all (\<lambda>p. fst p < n1) news1"
    using collect_articles_ids [of "next_oid w" "[]" c p "article_array w" news1 arts1 n1] by simp
  with assms Returned acc show ?thesis
    by (auto simp: getBookmarksArticles_def setTimeout_def ids_given_def)
qed

text \<open>
  Whatever article the response names, no card is identical to it, and the handler
  removes the last card.
\<close>

lemma articleBookmarkResponse_removes_last:
  assumes ids: "ids_given w"
    and art: "get_prop ''article'' (obj_get ''bookmark_article'' b) = Some article"
  shows "newsPosts (bst (world_of (articleBookmarkResponse c b w))) = butlast (newsPosts (bst w))"
proof -
  have "\<forall>p\<in>set (newsPosts (bst w)). \<not> (Some (fst p) = parsed_identity w article)"
    using ids by (auto simp: ids_given_def list_all_iff parsed_identity_def split: jsval.splits)
  then have "index_of (\<lambda>p. Some (fst p) = parsed_identity w article) (newsPosts (bst w)) = - 1"
    by (rule index_of_none)
  then show ?thesis
    using art by (simp add: articleBookmarkResponse_def Let_def splice1_last send_def)
qed

text \<open>
  Claim C7 at a concrete input. Two bookmarked articles are shown, and the signed-in user
  toggles the bookmark of the first: one POST with the id of the article is made, and
  when its response arrives the card of the second article is removed, the card of the
  first stays, and the bookmarks are fetched again.
\<close>

theorem C7_toggle_removes_last_card:
  "map snd (newsPosts (bst w_bookmarks)) =
     [article_dict demo_config article_one ''a.jpg'', article_dict demo_config article_two ''b.jpg'']
   \<and> map meth (pending (getArticleId demo_config (JNum 1) w_bookmarks)) = [''GET'', ''POST'']
   \<and> map body (pending (getArticleId demo_config (JNum 1) w_bookmarks)) =
        [NoBody, JsonStringify (JObj [(''article_id'', JNum 1)])]
   \<and> map snd (newsPosts (bst (world_of (articleBookmarkResponse demo_config toggle_response
        (answered 1 (getArticleId demo_config (JNum 1) w_bookmarks)))))) =
     [article_dict demo_config article_one ''a.jpg'']
   \<and> map callback (pending (world_of (articleBookmarkResponse demo_config toggle_response
        (answered 1 (getArticleId demo_config (JNum 1) w_bookmarks))))) =
     [CbGetMenu, CbGetBookmarksArticles]"
  by code_simp

text \<open>
  Claim C8. When the \<^verbatim>\<open>full_name\<close> cookie is absent at mount (or present with a falsy
  value), the view assigns \<^verbatim>\<open>"/"\<close> to \<^verbatim>\<open>window.location.href\<close> and makes one transport
  call only, the GET of the menus: the bookmarks are not fetched. When the cookie is
  truthy the view stays, marks the user as logged in and fetches the bookmarks, whatever
  the other cookies hold: the token goes into the header as it is, and no other request
  is made.
\<close>

theorem C8_mount:
  "(map_of (cookies w) ''full_name'' = None \<longrightarrow> \<not> truthy (cookies_get ''full_name'' w))
   \<and> (\<not> truthy (cookies_get ''full_name'' w) \<longrightarrow>
        href (componentDidMount_bm c w) = Some ''/''
        \<and> pending (componentDidMount_bm c w) =
            pending w @ [getRequest (MENUS c @ ''?'' @ domain (bst w)) CbGetMenu NoHeaders
                           ''componentDidMount'']
        \<and> is_loggedin (bst (componentDidMount_bm c w)) = is_loggedin (bst w))
   \<and> (truthy (cookies_get ''full_name'' w) \<longrightarrow>
        href (componentDidMount_bm c w) = href w
        \<and> pending (componentDidMount_bm c w) =
            pending w @ [getRequest (MENUS c @ ''?'' @ domain (bst w)) CbGetMenu NoHeaders
                           ''componentDidMount'',
                         getRequest (ALL_ARTICLE_BOOKMARK c @ ''?'' @ domain (bst w))
                           CbGetBookmarksArticles
                           (TokenHeaders (''Token '' @ to_str (cookies_get ''token'' w)))
                           ''componentDidMount'']
        \<and> is_loggedin (bst (componentDidMount_bm c w)))"
  by (simp add: componentDidMount_bm_def Let_def send_def getTheme_def dark_style_on_def
        dark_style_off_def cookies_get_def obj_get_def token_headers_def
        split: option.splits)

text \<open>The statement of C8 with no cookie at all, and with the cookies of a signed-in user.\<close>

theorem C8_mount_witness:
  "map_of (cookies (Bookmark_constructor demo_config [])) ''full_name'' = None
   \<and> href (componentDidMount_bm demo_config (Bookmark_constructor demo_config [])) = Some ''/''
   \<and> map url (pending (componentDidMount_bm demo_config (Bookmark_constructor demo_config []))) =
        [''/api/v1/menus/?domain=newscout'']
   \<and> truthy (cookies_get ''full_name'' (Bookmark_constructor demo_config jar_demo))
   \<and> href (componentDidMount_bm demo_config (Bookmark_constructor demo_config jar_demo)) = None
   \<and> map url (pending (componentDidMount_bm demo_config (Bookmark_constructor demo_config jar_demo))) =
        [''/api/v1/menus/?domain=newscout'', ''/api/v1/bookmark-articles/?domain=newscout'']"
proof -
  let ?w0 = "Bookmark_constructor demo_config []"
  let ?w1 = "Bookmark_constructor demo_config jar_demo"
  have a: "map_of (cookies ?w0) ''full_name'' = None" by (simp add: Bookmark_constructor_def)
  have t: "truthy (cookies_get ''full_name'' ?w1)" by code_simp
  have p0: "pending ?w0 = []" and d0: "domain (bst ?w0) = ''domain=newscout''"
    and h1: "href ?w1 = None" and p1: "pending ?w1 = []"
    and d1: "domain (bst ?w1) = ''domain=newscout''"
    by (simp_all add: Bookmark_constructor_def demo_config_def)
  have m: "MENUS demo_config = ''/api/v1/menus/''"
    and b: "ALL_ARTICLE_BOOKMARK demo_config = ''/api/v1/bookmark-articles/''"
    by (simp_all add: demo_config_def)
  from C8_mount [of ?w0 demo_config] a
  have r0: "href (componentDidMount_bm demo_config ?w0) = Some ''/''"
    and q0: "pending (componentDidMount_bm demo_config ?w0) =
            pending ?w0 @ [getRequest (MENUS demo_config @ ''?'' @ domain (bst ?w0)) CbGetMenu
                             NoHeaders ''componentDidMount'']"
    by blast+
  from C8_mount [of ?w1 demo_config] t
  have r1: "href (componentDidMount_bm demo_config ?w1) = href ?w1"
    and q1: "pending (componentDidMount_bm demo_config ?w1) =
            pending ?w1 @ [getRequest (MENUS demo_config @ ''?'' @ domain (bst ?w1)) CbGetMenu
                             NoHeaders ''componentDidMount'',
                         getRequest (ALL_ARTICLE_BOOKMARK demo_config @ ''?'' @ domain (bst ?w1))
                           CbGetBookmarksArticles
                           (TokenHeaders (''Token '' @ to_str (cookies_get ''token'' ?w1)))
                           ''componentDidMount'']"
    by blast+
  from q0 p0 d0 m have u0: "map url (pending (componentDidMount_bm demo_config ?w0)) =
        [''/api/v1/menus/?domain=newscout'']"
    by (simp add: getRequest_def)
  from q1 p1 d1 m b have u1: "map url (pending (componentDidMount_bm demo_config ?w1)) =
        [''/api/v1/menus/?domain=newscout'', ''/api/v1/bookmark-articles/?domain=newscout'']"
    by (simp add: getRequest_def)
  from a r0 u0 t r1 h1 u1 show ?thesis by simp
qed

lemma collect_articles_ok:
  "page_ok c items \<Longrightarrow>
   \<exists>news'. collect_articles c items (news, arts, n) =
     Returned (news @ news', arts @ covered items, n + length (covered items))"
proof (induction items arbitrary: news arts n)
  case Nil
  then show ?case by simp
next
  case (Cons item items)
  show ?case
  proof (cases "obj_get ''article'' item")
    case (JObj art)
    show ?thesis
    proof (cases "truthy (obj_get ''cover_image'' art)")
      case True
      with Cons.prems JObj obtain src where
        d: "decodeURIComponent c (to_str (obj_get ''cover_image'' art)) = Some src"
        and ok: "page_ok c items" by auto
      from Cons.IH [OF ok, of "news @ [(n, article_dict c art src)]" "arts @ [JObj art]" "Suc n"]
      obtain news' where "collect_articles c items
          (news @ [(n, article_dict c art src)], arts @ [JObj art], Suc n) =
        Returned ((news @ [(n, article_dict c art src)]) @ news',
                  (arts @ [JObj art]) @ covered items, Suc n + length (covered items))"
        by blast
      with JObj True d have "collect_articles c (item # items) (news, arts, n) =
        Returned (news @ ((n, article_dict c art src) # news'),
                  arts @ covered (item # items), n + length (covered (item # items)))"
        by simp
      then show ?thesis by blast
    next
      case False
      with Cons.prems JObj have ok: "page_ok c items" by simp
      from Cons.IH [OF ok, of news arts n] JObj False show ?thesis by simp
    qed
  next
    case JUndefined
    with Cons.prems show ?thesis by simp
  next
    case JNull
    with Cons.prems show ?thesis by simp
  next
    case (JBool x)
    with Cons.prems have ok: "page_ok c items" by simp
    from Cons.IH [OF ok, of news arts n] JBool show ?thesis by simp
  next
    case (JNum x)
    with Cons.prems have ok: "page_ok c items" by simp
    from Cons.IH [OF ok, of news arts n] JNum show ?thesis by simp
  next
    case (JStr x)
    with Cons.prems have ok: "page_ok c items" by simp
    from Cons.IH [OF ok, of news arts n] JStr show ?thesis by simp
  next
    case (JArr x)
    with Cons.prems have ok: "page_ok c items" by simp
    from Cons.IH [OF ok, of news arts n] JArr show ?thesis by simp
  qed
qed

lemma collect_articles_grows:
  "prefix arts (fst (snd (world_of (collect_articles c items (news, arts, n)))))"
proof (induction items arbitrary: news arts n)
  case Nil
  show ?case by simp
next
  case (Cons item items)
  show ?case
  proof (cases "obj_get ''article'' item")
    case (JObj art)
    show ?thesis
    proof (cases "truthy (obj_get ''cover_image'' art)")
      case True
      show ?thesis
      proof (cases "decodeURIComponent c (to_str (obj_get ''cover_image'' art))")
        case None
        with JObj True show ?thesis by simp
      next
        case (Some src)
        from Cons.IH [of "arts @ [JObj art]" "news @ [(n, article_dict c art src)]" "Suc n"]
        have "prefix arts (fst (snd (world_of (collect_articles c items
                (news @ [(n, article_dict c art src)], arts @ [JObj art], Suc n)))))"
          by (rule append_prefixD)
        with JObj True Some show ?thesis by simp
      qed
    next
      case False
      with Cons.IH [of arts news n] JObj show ?thesis by simp
    qed
  qed (use Cons.IH [of arts news n] in simp_all)
qed

lemma getBookmarksArticles_grows:
  "prefix (article_array w) (article_array (world_of (getBookmarksArticles c p w)))"
proof (cases "collect_articles c p ([], article_array w, next_oid w)")
  case (Returned acc)
  with collect_articles_grows [of "article_array w" c p "[]" "next_oid w"] show ?thesis
    by (cases acc) (simp add: getBookmarksArticles_def setTimeout_def)
next
  case (Threw err acc)
  with collect_articles_grows [of "article_array w" c p "[]" "next_oid w"] show ?thesis
    by (cases acc) (simp add: getBookmarksArticles_def)
qed

lemma getBookmarksArticles_ok:
  assumes "page_ok c p"
  shows "article_array (world_of (getBookmarksArticles c p w)) = article_array w @ covered p
       \<and> bookmark_ids (bst (world_of (getBookmarksArticles c p w))) = ArticleArray"
proof -
  from collect_articles_ok [OF assms, of "[]" "article_array w" "next_oid w"]
  obtain news' where "collect_articles c p ([], article_array w, next_oid w) =
      Returned ([] @ news', article_array w @ covered p, next_oid w + length (covered p))"
    by blast
  then show ?thesis by (simp add: getBookmarksArticles_def setTimeout_def)
qed

lemma fetch_all_ok:
  "list_all (page_ok c) pages \<Longrightarrow>
   article_array (fetch_all c pages w) = article_array w @ concat (map covered pages)
   \<and> (pages \<noteq> [] \<or> bookmark_ids (bst w) = ArticleArray
        \<longrightarrow> bookmark_ids (bst (fetch_all c pages w)) = ArticleArray)"
proof (induction pages arbitrary: w)
  case Nil
  show ?case by simp
next
  case (Cons p ps)
  then have p: "page_ok c p" and ps: "list_all (page_ok c) ps" by simp_all
  from getBookmarksArticles_ok [OF p, of w] Cons.IH [OF ps, of "world_of (getBookmarksArticles c p w)"]
  show ?case by simp
qed

text \<open>
  Claim C9, as the code has it. No fetch shortens \<^verbatim>\<open>article_array\<close>, and no other handler
  of the view writes it. \<^verbatim>\<open>getBookmarksArticles\<close> appends the articles of the page that
  have a truthy \<^verbatim>\<open>cover_image\<close>, in their order, and skips the others; so after the
  fetches of \<open>k > 0\<close> pages on which the loop does not throw, \<^verbatim>\<open>bookmark_ids\<close> is the list
  that was there followed by the kept articles of all \<open>k\<close> pages, duplicates and articles
  no longer bookmarked included.
\<close>

theorem C9_article_array:
  assumes "list_all (page_ok c) pages"
  shows "article_array (fetch_all c pages w) = article_array w @ concat (map covered pages)
       \<and> (pages \<noteq> [] \<longrightarrow>
            read_bookmark_ids (fetch_all c pages w) = article_array w @ concat (map covered pages))
       \<and> prefix (article_array w) (article_array (world_of (getBookmarksArticles c p w)))
       \<and> article_array (world_of (articleBookmarkResponse c b w)) = article_array w
       \<and> article_array (getArticleId c a w) = article_array w
       \<and> article_array (authLogoutResponse w) = article_array w
       \<and> article_array (componentDidMount_bm c w) = article_array w"
proof -
  from fetch_all_ok [OF assms, of w]
  have 1: "article_array (fetch_all c pages w) = article_array w @ concat (map covered pages)"
    and r: "pages \<noteq> [] \<longrightarrow> bookmark_ids (bst (fetch_all c pages w)) = ArticleArray"
    by simp_all
  from 1 r have 2: "pages \<noteq> [] \<longrightarrow>
      read_bookmark_ids (fetch_all c pages w) = article_array w @ concat (map covered pages)"
    by (simp add: read_bookmark_ids_def)
  have 3: "prefix (article_array w) (article_array (world_of (getBookmarksArticles c p w)))"
    by (rule getBookmarksArticles_grows)
  have 4: "article_array (world_of (articleBookmarkResponse c b w)) = article_array w"
    by (simp add: articleBookmarkResponse_def Let_def send_def split: option.splits)
  have 5: "article_array (getArticleId c a w) = article_array w"
    by (simp add: getArticleId_def fetchArticleBookmark_def toggle_bm_def send_def)
  have 6: "article_array (authLogoutResponse w) = article_array w"
    by (simp add: authLogoutResponse_def cookies_remove_def Let_def)
  have 7: "article_array (componentDidMount_bm c w) = article_array w"
    by (simp add: componentDidMount_bm_def Let_def send_def getTheme_def dark_style_on_def
          dark_style_off_def split: option.splits)
  from 1 2 3 4 5 6 7 show ?thesis by blast
qed

text \<open>
  The statement of C9 for two fetches: the first returns articles 1 and 3, the second
  article 1 again.
\<close>

theorem C9_article_array_witness:
  "list_all (page_ok demo_config)
     [[item_of article_one, item_of article_plain], [item_of article_one]]
   \<and> read_bookmark_ids
        (fetch_all demo_config
           [[item_of article_one, item_of article_plain], [item_of article_one]]
           (Bookmark_constructor demo_config jar_demo))
      = [JObj article_one, JObj article_one]"
proof -
  let ?pages = "[[item_of article_one, item_of article_plain], [item_of article_one]]"
  have h: "list_all (page_ok demo_config) ?pages" by code_simp
  have a: "article_array (Bookmark_constructor demo_config jar_demo) = []"
    by (simp add: Bookmark_constructor_def)
  have c: "concat (map covered ?pages) = [JObj article_one, JObj article_one]" by code_simp
  from C9_article_array [OF h, of "Bookmark_constructor demo_config jar_demo"] a c
  have "read_bookmark_ids (fetch_all demo_config ?pages (Bookmark_constructor demo_config jar_demo))
      = [JObj article_one, JObj article_one]" by simp
  with h show ?thesis by blast
qed

text \<open>
  Claim C9 as it is written fails for a page with an article that has no cover image:
  the page brings articles 1 and 3, and \<^verbatim>\<open>bookmark_ids\<close> holds article 1 alone.
\<close>

theorem C9_counterexample:
  "map (obj_get ''article'') [item_of article_one, item_of article_plain] =
     [JObj article_one, JObj article_plain]
   \<and> read_bookmark_ids
        (fetch_all demo_config [[item_of article_one, item_of article_plain]]
           (Bookmark_constructor demo_config jar_demo))
      = [JObj article_one]"
  by code_simp

section \<open>Properties of the subscription view\<close>

text \<open>
  Claim C10, as the code has it. \<^verbatim>\<open>renderResponse\<close> changes nothing but the
  notifications, the form state least of all. It shows "Subscription Updated
  successfully!" at the default level, success, when \<^verbatim>\<open>results == "success"\<close> holds, and
  "Something went wrong!" at the level error when it does not hold; when the comparison
  itself throws, the handler ends there and shows nothing. The comparison holds for the
  string "success" and for an array whose string form is "success"; it throws for an
  object with a \<^verbatim>\<open>toString\<close> property of its own and for an array that holds one; it
  fails for every other value.
\<close>

theorem C10_renderResponse:
  "renderResponse b w =
     (case eq_success (obj_get ''results'' b) of
        None \<Rightarrow> Threw TypeError w
      | Some True \<Rightarrow>
          Returned (w\<lparr>toasts := toasts w @ [(JStr ''Subscription Updated successfully!'', None)]\<rparr>)
      | Some False \<Rightarrow>
          Returned (w\<lparr>toasts := toasts w @ [(JStr ''Something went wrong!'', Some ''error'')]\<rparr>))
   \<and> sst (world_of (renderResponse b w)) = sst w
   \<and> pending (world_of (renderResponse b w)) = pending w
   \<and> level_of None = ''success''
   \<and> eq_success (JStr s) = Some (s = ''success'')
   \<and> eq_success (JArr xs) =
        (if list_ex own_toString xs then None else Some (to_str (JArr xs) = ''success''))
   \<and> eq_success (JObj kvs) = (if map_of kvs ''toString'' \<noteq> None then None else Some False)
   \<and> eq_success (JNum n) = Some False
   \<and> eq_success (JBool t) = Some False
   \<and> eq_success JNull = Some False
   \<and> eq_success JUndefined = Some False"
  by (simp add: renderResponse_def notify_def level_of_def split: option.splits bool.splits)

text \<open>
  The three outcomes of C10 on concrete responses: the string "success", another string,
  and an object whose \<^verbatim>\<open>toString\<close> is data.
\<close>

lemma renderResponse_runs:
  "renderResponse [(''results'', JStr ''success'')] (Subs_constructor demo_config) =
     Returned ((Subs_constructor demo_config)
        \<lparr>toasts := [(JStr ''Subscription Updated successfully!'', None)]\<rparr>)
   \<and> renderResponse [(''results'', JStr ''failed'')] (Subs_constructor demo_config) =
     Returned ((Subs_constructor demo_config)
        \<lparr>toasts := [(JStr ''Something went wrong!'', Some ''error'')]\<rparr>)
   \<and> renderResponse [(''results'', JObj [(''toString'', JNum 1)])] (Subs_constructor demo_config) =
     Threw TypeError (Subs_constructor demo_config)
   \<and> renderResponse [(''results'', JArr [JObj [(''toString'', JNum 1)]])]
        (Subs_constructor demo_config) =
     Threw TypeError (Subs_constructor demo_config)"
  by (simp add: renderResponse_def notify_def Subs_constructor_def obj_get_def)

text \<open>
  Claim C10 as it is written fails for a response whose \<^verbatim>\<open>results\<close> is the array
  \<^verbatim>\<open>["success"]\<close>: it is not the string, and the success notification is shown.
\<close>

theorem C10_counterexample:
  "obj_get ''results'' [(''results'', JArr [JStr ''success''])] \<noteq> JStr ''success''
   \<and> toasts (world_of (renderResponse [(''results'', JArr [JStr ''success''])]
        (Subs_constructor demo_config)))
      = [(JStr ''Subscription Updated successfully!'', None)]"
  by code_simp

end
